theory Spec2Isabelle
  imports Main
begin

section \<open>Python values\<close>

text \<open>
  The worker \<^verbatim>\<open>simple_worker.py\<close> reads one task with \<^verbatim>\<open>json.load\<close>, looks up a few
  fields with \<^verbatim>\<open>dict.get\<close>, formats three f-strings and prints \<^verbatim>\<open>json.dumps(result)\<close>.
  The values it handles are the Python objects that \<^verbatim>\<open>json.load\<close> can return.

  A Python \<^verbatim>\<open>str\<close> is modelled as a \<^typ>\<open>string\<close> whose characters are code points below
  256; an \<^verbatim>\<open>int\<close> is an unbounded \<^typ>\<open>int\<close>; a \<^verbatim>\<open>dict\<close> is an association list in
  insertion order, looked up with \<^const>\<open>map_of\<close> (the dicts that \<^verbatim>\<open>json.load\<close> returns have
  strings as keys, each once); a \<^verbatim>\<open>float\<close> is either a finite double \<open>Finite s m e\<close>, with
  sign \<open>s\<close>, significand \<open>m\<close> and binary exponent \<open>e\<close>, or one of the three doubles that are
  not finite, which \<^verbatim>\<open>json.load\<close> returns for \<^verbatim>\<open>1e999\<close>, \<^verbatim>\<open>-1e999\<close> and the literals
  \<^verbatim>\<open>Infinity\<close>, \<^verbatim>\<open>-Infinity\<close> and \<^verbatim>\<open>NaN\<close>.

  The resource limits of the interpreter are left out: memory is unbounded, and no value
  is nested too deeply for the recursion of \<^verbatim>\<open>repr\<close> and \<^verbatim>\<open>json.dumps\<close>.
\<close>

datatype pyfloat = Finite bool nat int | PosInf | NegInf | NaN

datatype pyval =
    PNone
  | PBool bool
  | PInt int
  | PFloat pyfloat
  | PStr string
  | PList "pyval list"
  | PDict "(string \<times> pyval) list"

text \<open>
  The exceptions that can reach the handler, each carrying its \<^verbatim>\<open>str(e)\<close>. All of them
  are subclasses of \<^verbatim>\<open>Exception\<close>. \<^verbatim>\<open>AttributeError\<close> is what \<^verbatim>\<open>x.get\<close> raises when
  \<^verbatim>\<open>x\<close> is not a dict; the other three are what \<^verbatim>\<open>json.load(sys.stdin)\<close> raises.
\<close>

datatype exn =
    AttributeError string
  | JSONDecodeError string
  | UnicodeDecodeError string
  | RecursionError string

fun exn_str :: "exn \<Rightarrow> string" where
  "exn_str (AttributeError m) = m"
| "exn_str (JSONDecodeError m) = m"
| "exn_str (UnicodeDecodeError m) = m"
| "exn_str (RecursionError m) = m"

fun type_name :: "pyval \<Rightarrow> string" where
  "type_name PNone = ''NoneType''"
| "type_name (PBool b) = ''bool''"
| "type_name (PInt i) = ''int''"
| "type_name (PFloat f) = ''float''"
| "type_name (PStr s) = ''str''"
| "type_name (PList xs) = ''list''"
| "type_name (PDict kvs) = ''dict''"

text \<open>
  \<^verbatim>\<open>x.get(key, default)\<close>: the dictionary lookup with a default when \<^verbatim>\<open>x\<close> is a dict,
  and an \<^verbatim>\<open>AttributeError\<close> for every other type, none of which has an attribute
  \<^verbatim>\<open>get\<close>.
\<close>

definition no_attribute :: "pyval \<Rightarrow> string \<Rightarrow> exn" where
  "no_attribute x attr =
     AttributeError
       ([CHR 0x27] @ type_name x @ [CHR 0x27] @ '' object has no attribute ''
          @ [CHR 0x27] @ attr @ [CHR 0x27])"

fun get :: "pyval \<Rightarrow> string \<Rightarrow> pyval \<Rightarrow> exn + pyval" where
  "get (PDict kvs) key dflt = Inr (case map_of kvs key of None \<Rightarrow> dflt | Some v \<Rightarrow> v)"
| "get x key dflt = Inl (no_attribute x ''get'')"

section \<open>Formatting: \<^verbatim>\<open>str\<close>, \<^verbatim>\<open>repr\<close> and f-strings\<close>

text \<open>
  \<^verbatim>\<open>int.__repr__\<close>: the decimal digits of the number, most significant first, after a minus
  sign when it is negative. \<open>digit_char\<close> is the digit of a value below 16, in lower case
  as \<^verbatim>\<open>repr\<close> and \<^verbatim>\<open>json.dumps\<close> write hexadecimal escapes.
\<close>

definition digit_char :: "nat \<Rightarrow> char" where
  "digit_char d = ''0123456789abcdef'' ! (d mod 16)"

fun nat_str :: "nat \<Rightarrow> string" where
  "nat_str n = (if n < 10 then [digit_char n] else nat_str (n div 10) @ [digit_char (n mod 10)])"

declare nat_str.simps [simp del]

definition int_str :: "int \<Rightarrow> string" where
  "int_str i = (if i < 0 then ''-'' @ nat_str (nat (- i)) else nat_str (nat i))"

text \<open>
  \<^verbatim>\<open>float.__repr__\<close>. The shortest round-tripping decimal of a finite double is computed
  by the interpreter, not by the worker: it is the parameter \<open>frepr\<close> of the model. The
  non-finite doubles print as \<^verbatim>\<open>inf\<close>, \<^verbatim>\<open>-inf\<close> and \<^verbatim>\<open>nan\<close>.
\<close>

type_synonym frepr = "bool \<Rightarrow> nat \<Rightarrow> int \<Rightarrow> string"

fun float_repr :: "frepr \<Rightarrow> pyfloat \<Rightarrow> string" where
  "float_repr frepr (Finite s m e) = frepr s m e"
| "float_repr frepr PosInf = ''inf''"
| "float_repr frepr NegInf = ''-inf''"
| "float_repr frepr NaN = ''nan''"

text \<open>
  \<^verbatim>\<open>repr\<close> of a \<^verbatim>\<open>str\<close>: single quotes unless the string has a single quote and no double
  quote; the quote and the backslash are escaped, tab, line feed and carriage return are
  written \<^verbatim>\<open>\t\<close>, \<^verbatim>\<open>\n\<close>, \<^verbatim>\<open>\r\<close>, every other character that is not printable is
  written \<^verbatim>\<open>\xNN\<close>. Below 256 the printable characters are \<^verbatim>\<open>0x20\<close> to \<^verbatim>\<open>0x7e\<close> and
  \<^verbatim>\<open>0xa1\<close> to \<^verbatim>\<open>0xff\<close> without the soft hyphen \<^verbatim>\<open>0xad\<close>.
\<close>

definition printable :: "char \<Rightarrow> bool" where
  "printable c =
     (let n = (of_char c :: nat)
      in (0x20 \<le> n \<and> n \<le> 0x7e) \<or> (0xa1 \<le> n \<and> n \<noteq> 0xad))"

definition hex2 :: "nat \<Rightarrow> string" where
  "hex2 n = [digit_char (n div 16), digit_char (n mod 16)]"

definition repr_char :: "char \<Rightarrow> char \<Rightarrow> string" where
  "repr_char q c =
     (if c = q \<or> c = CHR 0x5C then [CHR 0x5C, c]
      else if c = CHR 0x09 then [CHR 0x5C, CHR ''t'']
      else if c = CHR 0x0A then [CHR 0x5C, CHR ''n'']
      else if c = CHR 0x0D then [CHR 0x5C, CHR ''r'']
      else if \<not> printable c then [CHR 0x5C, CHR ''x''] @ hex2 (of_char c)
      else [c])"

definition str_repr :: "string \<Rightarrow> string" where
  "str_repr s =
     (let q = (if CHR 0x27 \<in> set s \<and> CHR 0x22 \<notin> set s then CHR 0x22 else CHR 0x27)
      in [q] @ concat (map (repr_char q) s) @ [q])"

text \<open>\<^verbatim>\<open>sep.join(parts)\<close>.\<close>

fun join :: "string \<Rightarrow> string list \<Rightarrow> string" where
  "join sep [] = []"
| "join sep [x] = x"
| "join sep (x # y # ys) = x @ sep @ join sep (y # ys)"

text \<open>\<^verbatim>\<open>repr\<close> of a value: lists and dicts print their elements' \<^verbatim>\<open>repr\<close>.\<close>

fun repr :: "frepr \<Rightarrow> pyval \<Rightarrow> string" where
  "repr frepr PNone = ''None''"
| "repr frepr (PBool b) = (if b then ''True'' else ''False'')"
| "repr frepr (PInt i) = int_str i"
| "repr frepr (PFloat f) = float_repr frepr f"
| "repr frepr (PStr s) = str_repr s"
| "repr frepr (PList xs) = ''['' @ join '', '' (map (repr frepr) xs) @ '']''"
| "repr frepr (PDict kvs) =
     ''{'' @ join '', '' (map (\<lambda>(k, v). str_repr k @ '': '' @ repr frepr v) kvs) @ ''}''"

text \<open>
  What an f-string puts in place of \<^verbatim>\<open>{x}\<close>: \<^verbatim>\<open>format(x, '')\<close>, which is \<^verbatim>\<open>x\<close> itself
  for a \<^verbatim>\<open>str\<close> and \<^verbatim>\<open>str(x)\<close>, here equal to \<^verbatim>\<open>repr(x)\<close>, for the other types.
\<close>

declare repr.simps [simp del]

fun format :: "frepr \<Rightarrow> pyval \<Rightarrow> string" where
  "format frepr (PStr s) = s"
| "format frepr x = repr frepr x"

section \<open>\<^verbatim>\<open>json.dumps\<close>\<close>

text \<open>
  \<^verbatim>\<open>json.dumps\<close> with its default arguments: \<^verbatim>\<open>ensure_ascii=True\<close>, so a string is
  written between double quotes with \<^verbatim>\<open>"\<close> and \<^verbatim>\<open>\\<close> escaped by a backslash, the five
  short escapes \<^verbatim>\<open>\n \r \t \b \f\<close>, and \<^verbatim>\<open>\uXXXX\<close> for every other character outside
  \<^verbatim>\<open>0x20\<close> to \<^verbatim>\<open>0x7e\<close>; the separators are \<^verbatim>\<open>", "\<close> and \<^verbatim>\<open>": "\<close>; and
  \<^verbatim>\<open>allow_nan=True\<close>, so the non-finite floats are written \<^verbatim>\<open>NaN\<close>, \<^verbatim>\<open>Infinity\<close> and
  \<^verbatim>\<open>-Infinity\<close>.
\<close>

definition hex4 :: "nat \<Rightarrow> string" where
  "hex4 n =
     [digit_char (n div 4096), digit_char (n div 256), digit_char (n div 16), digit_char n]"

definition escape_char :: "char \<Rightarrow> string" where
  "escape_char c =
     (if c = CHR 0x22 then [CHR 0x5C, CHR 0x22]
      else if c = CHR 0x5C then [CHR 0x5C, CHR 0x5C]
      else if c = CHR 0x0A then [CHR 0x5C, CHR ''n'']
      else if c = CHR 0x0D then [CHR 0x5C, CHR ''r'']
      else if c = CHR 0x09 then [CHR 0x5C, CHR ''t'']
      else if c = CHR 0x08 then [CHR 0x5C, CHR ''b'']
      else if c = CHR 0x0C then [CHR 0x5C, CHR ''f'']
      else if (of_char c :: nat) < 0x20 \<or> 0x7e < (of_char c :: nat)
        then [CHR 0x5C, CHR ''u''] @ hex4 (of_char c)
      else [c])"

definition encode_str :: "string \<Rightarrow> string" where
  "encode_str s = [CHR 0x22] @ concat (map escape_char s) @ [CHR 0x22]"

fun floatstr :: "frepr \<Rightarrow> pyfloat \<Rightarrow> string" where
  "floatstr frepr NaN = ''NaN''"
| "floatstr frepr PosInf = ''Infinity''"
| "floatstr frepr NegInf = ''-Infinity''"
| "floatstr frepr (Finite s m e) = frepr s m e"

fun json_dumps :: "frepr \<Rightarrow> pyval \<Rightarrow> string" where
  "json_dumps frepr PNone = ''null''"
| "json_dumps frepr (PBool b) = (if b then ''true'' else ''false'')"
| "json_dumps frepr (PInt i) = int_str i"
| "json_dumps frepr (PFloat f) = floatstr frepr f"
| "json_dumps frepr (PStr s) = encode_str s"
| "json_dumps frepr (PList xs) = ''['' @ join '', '' (map (json_dumps frepr) xs) @ '']''"
| "json_dumps frepr (PDict kvs) =
     ''{'' @ join '', '' (map (\<lambda>(k, v). encode_str k @ '': '' @ json_dumps frepr v) kvs) @ ''}''"

declare json_dumps.simps [simp del]

section \<open>The worker\<close>

text \<open>
  \<^verbatim>\<open>main()\<close>. The two things the interpreter supplies are parameters: \<open>json_load\<close> is
  \<^verbatim>\<open>json.load\<close> applied to the contents of standard input, returning the parsed value or
  the exception it raises, and \<open>frepr\<close> is \<^verbatim>\<open>float.__repr__\<close> on finite doubles.

  The result is the list of lines printed so far, and the exception that ended \<^verbatim>\<open>main\<close>
  if one did. Every statement that can raise is a branch: the load, and each of the
  five \<^verbatim>\<open>.get\<close> calls, in the order of the source.
\<close>

definition main :: "(string \<Rightarrow> exn + pyval) \<Rightarrow> frepr \<Rightarrow> string \<Rightarrow> string list \<times> exn option" where
  "main json_load frepr stdin =
    (case json_load stdin of Inl e \<Rightarrow> ([], Some e) | Inr task \<Rightarrow>
    (case get task ''inputData'' (PDict []) of Inl e \<Rightarrow> ([], Some e) | Inr input_data \<Rightarrow>
    (case get input_data ''name'' (PStr ''World'') of Inl e \<Rightarrow> ([], Some e) | Inr name \<Rightarrow>
    (case get task ''taskId'' (PStr ''unknown'') of Inl e \<Rightarrow> ([], Some e) | Inr task_id \<Rightarrow>
    (case get task ''workflowInstanceId'' (PStr ''unknown'') of Inl e \<Rightarrow> ([], Some e)
     | Inr workflow_id \<Rightarrow>
    (case get task ''taskType'' (PStr ''unknown'') of Inl e \<Rightarrow> ([], Some e) | Inr task_type \<Rightarrow>
     (let message = ''Hello, '' @ format frepr name @ ''!'';
          result = PDict
            [(''status'', PStr ''COMPLETED''),
             (''output'', PDict
                [(''message'', PStr message),
                 (''taskId'', task_id),
                 (''workflowId'', workflow_id)]),
             (''logs'', PList
                [PStr (''Processing task '' @ format frepr task_id @ '' of type ''
                         @ format frepr task_type),
                 PStr (''Workflow: '' @ format frepr workflow_id),
                 PStr (''Generated greeting for '' @ format frepr name)])]
      in ([json_dumps frepr result], None))))))))"

text \<open>
  The process as its caller sees it: the lines printed to standard output, one for each
  call of \<^verbatim>\<open>print\<close>, and the exit status. \<^verbatim>\<open>print\<close> ends each line with a line feed, so
  the bytes on the stream are \<open>stdout_bytes\<close>.
\<close>

record process =
  stdout :: "string list"
  exit_status :: int


text \<open>
  The \<^verbatim>\<open>if __name__ == '__main__'\<close> block: run \<^verbatim>\<open>main\<close>; if it raised, print the failure
  result after whatever \<^verbatim>\<open>main\<close> had printed. Both branches then reach the end of the
  script, so the process exits with status 0 in both.
\<close>

definition worker :: "(string \<Rightarrow> exn + pyval) \<Rightarrow> frepr \<Rightarrow> string \<Rightarrow> process" where
  "worker json_load frepr stdin =
    (case main json_load frepr stdin of
       (out, None) \<Rightarrow> \<lparr>stdout = out, exit_status = 0\<rparr>
     | (out, Some e) \<Rightarrow>
         (let result = PDict
                [(''status'', PStr ''FAILED''),
                 (''reason'', PStr (exn_str e)),
                 (''logs'', PList [PStr (''Error processing task: '' @ exn_str e)])]
          in \<lparr>stdout = out @ [json_dumps frepr result], exit_status = 0\<rparr>))"

section \<open>Resolved fields and sample inputs\<close>

text \<open>
  The value of a field of a dict, or a default when the dict has no such key: what the
  spec calls the resolved field.
\<close>

definition field_or :: "(string \<times> pyval) list \<Rightarrow> string \<Rightarrow> pyval \<Rightarrow> pyval" where
  "field_or d key dflt = (case map_of d key of None \<Rightarrow> dflt | Some v \<Rightarrow> v)"

text \<open>
  What \<^verbatim>\<open>json.load\<close> returns on the inputs used as examples below: the three scenarios
  of the spec, objects with other types in their fields, the number \<^verbatim>\<open>1e999\<close>, which is
  beyond the largest double and is read as the float infinity, and an array. Every other
  input gets the \<^verbatim>\<open>JSONDecodeError\<close> that \<^verbatim>\<open>json.load\<close> raises when the input does not start
  with a JSON value; the examples use it on the empty input and on \<^verbatim>\<open>not json\<close> only.
\<close>

definition sample_load :: "string \<Rightarrow> exn + pyval" where
  \<open>sample_load stdin =
     (if stdin = ''{}'' then Inr (PDict [])
      else if stdin = ''{"taskId":"t1","workflowInstanceId":"w1","taskType":"greet","inputData":{"name":"Bob"}}''
        then Inr (PDict [(''taskId'', PStr ''t1''), (''workflowInstanceId'', PStr ''w1''),
                         (''taskType'', PStr ''greet''),
                         (''inputData'', PDict [(''name'', PStr ''Bob'')])])
      else if stdin = ''{"inputData": "not-an-object"}''
        then Inr (PDict [(''inputData'', PStr ''not-an-object'')])
      else if stdin = ''{"inputData": {"name": "Alice"}}''
        then Inr (PDict [(''inputData'', PDict [(''name'', PStr ''Alice'')])])
      else if stdin = ''{"taskId": 7, "workflowInstanceId": [true, null], "inputData": {"name": {"a": -3}}}''
        then Inr (PDict [(''taskId'', PInt 7),
                         (''workflowInstanceId'', PList [PBool True, PNone]),
                         (''inputData'', PDict [(''name'', PDict [(''a'', PInt (- 3))])])])
      else if stdin = ''{"taskId": 1e999}''
        then Inr (PDict [(''taskId'', PFloat PosInf)])
      else if stdin = ''[1, 2]'' then Inr (PList [PInt 1, PInt 2])
      else Inl (JSONDecodeError ''Expecting value: line 1 column 1 (char 0)''))\<close>

text \<open>A stand-in for \<^verbatim>\<open>float.__repr__\<close> in the examples, none of which has a finite float.\<close>

definition sample_frepr :: frepr where
  "sample_frepr s m e = ''0.0''"


section \<open>JSON texts\<close>

text \<open>
  The grammar of RFC 8259, for the spec's words ``syntactically valid JSON''. Each
  nonterminal is a relation between a text and the rest of it: \<open>jvalue s r\<close> says that \<open>s\<close>
  starts with a value and \<open>r\<close> is what follows the value.
\<close>

text \<open>\<^verbatim>\<open>ws = *( %x20 / %x09 / %x0A / %x0D )\<close>\<close>

inductive ws :: "string \<Rightarrow> string \<Rightarrow> bool" where
  ws_end: "ws s s"
| ws_more: "c \<in> set [CHR 0x20, CHR 0x09, CHR 0x0A, CHR 0x0D] \<Longrightarrow> ws s r \<Longrightarrow> ws (c # s) r"

text \<open>\<^verbatim>\<open>*DIGIT\<close>\<close>

inductive digits :: "string \<Rightarrow> string \<Rightarrow> bool" where
  digits_end: "digits s s"
| digits_more: "c \<in> set ''0123456789'' \<Longrightarrow> digits s r \<Longrightarrow> digits (c # s) r"

text \<open>\<^verbatim>\<open>int = zero / ( digit1-9 *DIGIT )\<close>\<close>

inductive int_part :: "string \<Rightarrow> string \<Rightarrow> bool" where
  int_zero: "int_part (CHR ''0'' # r) r"
| int_nonzero: "c \<in> set ''123456789'' \<Longrightarrow> digits s r \<Longrightarrow> int_part (c # s) r"

text \<open>\<^verbatim>\<open>[ frac ]\<close> with \<^verbatim>\<open>frac = decimal-point 1*DIGIT\<close>\<close>

inductive opt_frac :: "string \<Rightarrow> string \<Rightarrow> bool" where
  frac_none: "opt_frac s s"
| frac_some: "c \<in> set ''0123456789'' \<Longrightarrow> digits s r \<Longrightarrow> opt_frac (CHR ''.'' # c # s) r"

text \<open>\<^verbatim>\<open>[ exp ]\<close> with \<^verbatim>\<open>exp = e [ minus / plus ] 1*DIGIT\<close>\<close>

inductive opt_sign :: "string \<Rightarrow> string \<Rightarrow> bool" where
  sign_none: "opt_sign s s"
| sign_some: "c \<in> set ''+-'' \<Longrightarrow> opt_sign (c # s) s"

inductive opt_exp :: "string \<Rightarrow> string \<Rightarrow> bool" where
  exp_none: "opt_exp s s"
| exp_some: "e \<in> set ''eE'' \<Longrightarrow> opt_sign s (c # s') \<Longrightarrow> c \<in> set ''0123456789'' \<Longrightarrow>
     digits s' r \<Longrightarrow> opt_exp (e # s) r"

text \<open>\<^verbatim>\<open>number = [ minus ] int [ frac ] [ exp ]\<close>\<close>

inductive opt_minus :: "string \<Rightarrow> string \<Rightarrow> bool" where
  minus_none: "opt_minus s s"
| minus_some: "opt_minus (CHR ''-'' # s) s"

inductive number :: "string \<Rightarrow> string \<Rightarrow> bool" where
  number: "opt_minus s s1 \<Longrightarrow> int_part s1 s2 \<Longrightarrow> opt_frac s2 s3 \<Longrightarrow> opt_exp s3 r \<Longrightarrow> number s r"

text \<open>
  \<^verbatim>\<open>string = quotation-mark *char quotation-mark\<close>. A \<^verbatim>\<open>char\<close> is an unescaped character,
  which is any from \<^verbatim>\<open>%x20\<close> on but the quotation mark and the backslash, or a backslash
  followed by one of \<^verbatim>\<open>" \ / b f n r t\<close> or by \<^verbatim>\<open>u\<close> and four hexadecimal digits.
  \<open>chars s r\<close> reads the characters and the closing quotation mark.
\<close>

definition unescaped :: "char \<Rightarrow> bool" where
  "unescaped c \<longleftrightarrow> (0x20 :: nat) \<le> of_char c \<and> c \<noteq> CHR 0x22 \<and> c \<noteq> CHR 0x5C"

definition hexdig :: "char \<Rightarrow> bool" where
  "hexdig c \<longleftrightarrow> c \<in> set ''0123456789abcdefABCDEF''"

inductive chars :: "string \<Rightarrow> string \<Rightarrow> bool" where
  chars_end: "chars (CHR 0x22 # r) r"
| chars_unescaped: "unescaped c \<Longrightarrow> chars s r \<Longrightarrow> chars (c # s) r"
| chars_escape: "e \<in> set [CHR 0x22, CHR 0x5C, CHR ''/'', CHR ''b'', CHR ''f'', CHR ''n'',
       CHR ''r'', CHR ''t''] \<Longrightarrow> chars s r \<Longrightarrow> chars (CHR 0x5C # e # s) r"
| chars_unicode: "hexdig a \<Longrightarrow> hexdig b \<Longrightarrow> hexdig c \<Longrightarrow> hexdig d \<Longrightarrow> chars s r \<Longrightarrow>
     chars (CHR 0x5C # CHR ''u'' # a # b # c # d # s) r"

inductive jstring :: "string \<Rightarrow> string \<Rightarrow> bool" where
  jstring: "chars s r \<Longrightarrow> jstring (CHR 0x22 # s) r"

text \<open>
  \<^verbatim>\<open>value = false / null / true / object / array / number / string\<close>, with
  \<^verbatim>\<open>array = begin-array [ value *( value-separator value ) ] end-array\<close> and
  \<^verbatim>\<open>object = begin-object [ member *( value-separator member ) ] end-object\<close>, where
  \<^verbatim>\<open>member = string name-separator value\<close> and the six structural characters may have
  whitespace on both sides. \<open>elements\<close> reads the values of an array that is not empty and
  its closing bracket, \<open>members\<close> the members of an object that is not empty and its
  closing brace.
\<close>

inductive jvalue :: "string \<Rightarrow> string \<Rightarrow> bool"
  and elements :: "string \<Rightarrow> string \<Rightarrow> bool"
  and members :: "string \<Rightarrow> string \<Rightarrow> bool" where
  value_false: "jvalue (CHR ''f'' # CHR ''a'' # CHR ''l'' # CHR ''s'' # CHR ''e'' # r) r"
| value_null: "jvalue (CHR ''n'' # CHR ''u'' # CHR ''l'' # CHR ''l'' # r) r"
| value_true: "jvalue (CHR ''t'' # CHR ''r'' # CHR ''u'' # CHR ''e'' # r) r"
| value_number: "number s r \<Longrightarrow> jvalue s r"
| value_string: "jstring s r \<Longrightarrow> jvalue s r"
| array_empty: "ws s (CHR '']'' # r) \<Longrightarrow> jvalue (CHR ''['' # s) r"
| array: "elements s r \<Longrightarrow> jvalue (CHR ''['' # s) r"
| object_empty: "ws s (CHR ''}'' # r) \<Longrightarrow> jvalue (CHR ''{'' # s) r"
| object: "members s r \<Longrightarrow> jvalue (CHR ''{'' # s) r"
| elements_last: "ws s s1 \<Longrightarrow> jvalue s1 s2 \<Longrightarrow> ws s2 (CHR '']'' # r) \<Longrightarrow> elements s r"
| elements_more: "ws s s1 \<Longrightarrow> jvalue s1 s2 \<Longrightarrow> ws s2 (CHR '','' # s3) \<Longrightarrow> elements s3 r \<Longrightarrow>
     elements s r"
| members_last: "ws s s1 \<Longrightarrow> jstring s1 s2 \<Longrightarrow> ws s2 (CHR '':'' # s3) \<Longrightarrow> ws s3 s4 \<Longrightarrow>
     jvalue s4 s5 \<Longrightarrow> ws s5 (CHR ''}'' # r) \<Longrightarrow> members s r"
| members_more: "ws s s1 \<Longrightarrow> jstring s1 s2 \<Longrightarrow> ws s2 (CHR '':'' # s3) \<Longrightarrow> ws s3 s4 \<Longrightarrow>
     jvalue s4 s5 \<Longrightarrow> ws s5 (CHR '','' # s6) \<Longrightarrow> members s6 r \<Longrightarrow> members s r"

text \<open>\<^verbatim>\<open>JSON-text = ws value ws\<close>, and a JSON text whose value is an object.\<close>

inductive json_text :: "string \<Rightarrow> bool" where
  json_text: "ws s s1 \<Longrightarrow> jvalue s1 s2 \<Longrightarrow> ws s2 [] \<Longrightarrow> json_text s"

inductive json_object_text :: "string \<Rightarrow> bool" where
  json_object_text: "ws s (CHR ''{'' # s1) \<Longrightarrow> jvalue (CHR ''{'' # s1) s2 \<Longrightarrow> ws s2 [] \<Longrightarrow>
     json_object_text s"

text \<open>
  The grammar runs as a recogniser: given the text, each nonterminal enumerates the rests
  it can leave.
\<close>

code_pred (modes: i \<Rightarrow> o \<Rightarrow> bool) ws .
code_pred (modes: i \<Rightarrow> o \<Rightarrow> bool) digits .
code_pred (modes: i \<Rightarrow> o \<Rightarrow> bool) int_part .
code_pred (modes: i \<Rightarrow> o \<Rightarrow> bool) opt_frac .
code_pred (modes: i \<Rightarrow> o \<Rightarrow> bool) opt_sign .
code_pred (modes: i \<Rightarrow> o \<Rightarrow> bool) opt_exp .
code_pred (modes: i \<Rightarrow> o \<Rightarrow> bool) opt_minus .
code_pred (modes: i \<Rightarrow> o \<Rightarrow> bool) number .
code_pred (modes: i \<Rightarrow> o \<Rightarrow> bool) chars .
code_pred (modes: i \<Rightarrow> o \<Rightarrow> bool) jstring .
code_pred (modes: i \<Rightarrow> o \<Rightarrow> bool) jvalue .
code_pred (modes: i \<Rightarrow> bool) json_text .
code_pred (modes: i \<Rightarrow> bool) json_object_text .

text \<open>
  A Python value that \<^verbatim>\<open>json.dumps\<close> writes as a JSON value: one with no NaN and no
  infinity in it.
\<close>

fun finite_floats :: "pyval \<Rightarrow> bool" where
  "finite_floats (PFloat (Finite s m e)) = True"
| "finite_floats (PFloat f) = False"
| "finite_floats (PList xs) = list_all finite_floats xs"
| "finite_floats (PDict kvs) = list_all (\<lambda>kv. finite_floats (snd kv)) kvs"
| "finite_floats x = True"

text \<open>
  Where a text stands after some characters: outside a string, inside one, or inside one
  just after a backslash; and the characters of a text that are outside its strings.
\<close>

datatype mode = Outside | Inside | Escaped

fun step :: "mode \<Rightarrow> char \<Rightarrow> mode" where
  "step Outside c = (if c = CHR 0x22 then Inside else Outside)"
| "step Inside c = (if c = CHR 0x22 then Outside else if c = CHR 0x5C then Escaped else Inside)"
| "step Escaped c = Inside"

fun bare :: "mode \<Rightarrow> string \<Rightarrow> string" where
  "bare m [] = []"
| "bare m (c # s) = (if m = Outside \<and> c \<noteq> CHR 0x22 then c # bare (step m c) s
     else bare (step m c) s)"

text \<open>
  A text is balanced when it ends outside a string and has no capital \<^verbatim>\<open>I\<close> outside its
  strings; \<open>eats s r\<close> says that \<open>s\<close> is a balanced text followed by \<open>r\<close>.
\<close>

definition balanced :: "string \<Rightarrow> bool" where
  "balanced s \<longleftrightarrow> foldl step Outside s = Outside \<and> CHR ''I'' \<notin> set (bare Outside s)"

definition eats :: "string \<Rightarrow> string \<Rightarrow> bool" where
  "eats s r \<longleftrightarrow> (\<exists>x. s = x @ r \<and> balanced x)"

section \<open>Standard input as bytes\<close>





section \<open>How \<^verbatim>\<open>main\<close> ends\<close>

lemma get_not_dict: "\<forall>d. x \<noteq> PDict d \<Longrightarrow> get x key dflt = Inl (no_attribute x ''get'')"
  by (cases x) simp_all

lemma main_load_raises:
  "json_load stdin = Inl e \<Longrightarrow> main json_load frepr stdin = ([], Some e)"
  by (simp add: main_def)

lemma main_not_object:
  "json_load stdin = Inr task \<Longrightarrow> \<forall>d. task \<noteq> PDict d \<Longrightarrow>
   main json_load frepr stdin = ([], Some (no_attribute task ''get''))"
  by (simp add: main_def get_not_dict)

lemma main_input_data_not_object:
  "json_load stdin = Inr (PDict task) \<Longrightarrow> map_of task ''inputData'' = Some x \<Longrightarrow>
   \<forall>d. x \<noteq> PDict d \<Longrightarrow>
   main json_load frepr stdin = ([], Some (no_attribute x ''get''))"
  by (simp add: main_def get_not_dict)

lemma main_completed:
  assumes "json_load stdin = Inr (PDict task)"
    and "field_or task ''inputData'' (PDict []) = PDict input_data"
  shows "main json_load frepr stdin =
    ([json_dumps frepr (PDict
        [(''status'', PStr ''COMPLETED''),
         (''output'', PDict
            [(''message'', PStr (''Hello, ''
                @ format frepr (field_or input_data ''name'' (PStr ''World'')) @ ''!'')),
             (''taskId'', field_or task ''taskId'' (PStr ''unknown'')),
             (''workflowId'', field_or task ''workflowInstanceId'' (PStr ''unknown''))]),
         (''logs'', PList
            [PStr (''Processing task ''
                @ format frepr (field_or task ''taskId'' (PStr ''unknown''))
                @ '' of type '' @ format frepr (field_or task ''taskType'' (PStr ''unknown''))),
             PStr (''Workflow: ''
                @ format frepr (field_or task ''workflowInstanceId'' (PStr ''unknown''))),
             PStr (''Generated greeting for ''
                @ format frepr (field_or input_data ''name'' (PStr ''World'')))])])],
     None)"
  using assms by (simp add: main_def field_or_def)

lemma main_cases:
  obtains (load_raises) e where "json_load stdin = Inl e"
  | (not_object) task where "json_load stdin = Inr task" "\<forall>d. task \<noteq> PDict d"
  | (input_data_not_object) task x where "json_load stdin = Inr (PDict task)"
      "map_of task ''inputData'' = Some x" "\<forall>d. x \<noteq> PDict d"
  | (completed) task input_data where "json_load stdin = Inr (PDict task)"
      "field_or task ''inputData'' (PDict []) = PDict input_data"
proof (cases "json_load stdin")
  case (Inl e)
  then show ?thesis by (rule load_raises)
next
  case (Inr task)
  show ?thesis
  proof (cases "\<exists>d. task = PDict d")
    case False
    with Inr show ?thesis by (intro not_object) auto
  next
    case True
    then obtain d where d: "task = PDict d" by blast
    show ?thesis
    proof (cases "map_of d ''inputData''")
      case None
      then have "field_or d ''inputData'' (PDict []) = PDict []" by (simp add: field_or_def)
      with Inr d show ?thesis by (intro completed) auto
    next
      case (Some x)
      show ?thesis
      proof (cases "\<exists>i. x = PDict i")
        case True
        then obtain i where "x = PDict i" by blast
        with Some have "field_or d ''inputData'' (PDict []) = PDict i" by (simp add: field_or_def)
        with Inr d show ?thesis by (intro completed) auto
      next
        case False
        with Inr d Some show ?thesis by (intro input_data_not_object) auto
      qed
    qed
  qed
qed

lemma not_dict_iff: "type_name x \<noteq> ''dict'' \<longleftrightarrow> (\<forall>d. x \<noteq> PDict d)"
  by (cases x) simp_all

lemma worker_failed:
  "main json_load frepr stdin = ([], Some e) \<Longrightarrow>
   worker json_load frepr stdin =
     \<lparr>stdout = [json_dumps frepr (PDict
        [(''status'', PStr ''FAILED''),
         (''reason'', PStr (exn_str e)),
         (''logs'', PList [PStr (''Error processing task: '' @ exn_str e)])])],
      exit_status = 0\<rparr>"
  by (simp add: worker_def)

lemma worker_returned:
  "main json_load frepr stdin = (out, None) \<Longrightarrow>
   worker json_load frepr stdin = \<lparr>stdout = out, exit_status = 0\<rparr>"
  by (simp add: worker_def)

lemma worker_failed_logs:
  assumes "main json_load frepr stdin = ([], Some e)"
  shows "\<exists>reason logs.
      stdout (worker json_load frepr stdin) =
        [json_dumps frepr (PDict
           [(''status'', PStr ''FAILED''), (''reason'', PStr reason), (''logs'', PList logs)])]
      \<and> length logs = 1
      \<and> logs = [PStr (''Error processing task: '' @ reason)]"
proof (intro exI conjI)
  from worker_failed [OF assms]
  show "stdout (worker json_load frepr stdin) =
        [json_dumps frepr (PDict
           [(''status'', PStr ''FAILED''), (''reason'', PStr (exn_str e)),
            (''logs'', PList [PStr (''Error processing task: '' @ exn_str e)])])]"
    by simp
qed simp_all

section \<open>What \<^verbatim>\<open>json.dumps\<close> writes is JSON\<close>

subsection \<open>Digits\<close>

lemma below_ten: "n < 10 \<Longrightarrow> n \<in> {0, 1, 2, 3, 4, 5, 6, 7, 8, 9::nat}"
  by auto

lemma digit_char_decimal:
  assumes "n < 10"
  shows "digit_char n \<in> set ''0123456789''"
proof -
  from assms have "n \<in> {0, 1, 2, 3, 4, 5, 6, 7, 8, 9}" by (rule below_ten)
  then show ?thesis by (auto simp: digit_char_def)
qed

lemma digit_char_nonzero:
  assumes "0 < n" and "n < 10"
  shows "digit_char n \<in> set ''123456789''"
proof -
  from assms(2) have "n \<in> {0, 1, 2, 3, 4, 5, 6, 7, 8, 9}" by (rule below_ten)
  with assms(1) show ?thesis by (auto simp: digit_char_def)
qed

lemma lower_hexdig: "c \<in> set ''0123456789abcdef'' \<Longrightarrow> hexdig c"
  by (auto simp: hexdig_def)

lemma digit_char_hexdig: "hexdig (digit_char n)"
  unfolding digit_char_def by (rule lower_hexdig, rule nth_mem) simp

lemma digits_extend: "digits s t \<Longrightarrow> t = d # r \<Longrightarrow> d \<in> set ''0123456789'' \<Longrightarrow> digits s r"
proof (induction rule: digits.induct)
  case (digits_end s)
  then show ?case by (auto intro: digits.intros)
next
  case (digits_more c s r')
  then show ?case by (auto intro: digits.intros)
qed

lemma nat_str_nonzero:
  "0 < n \<Longrightarrow> \<exists>c s. nat_str n @ r = c # s \<and> c \<in> set ''123456789'' \<and> digits s r"
proof (induction n arbitrary: r rule: nat_str.induct)
  case (1 n)
  show ?case
  proof (cases "n < 10")
    case True
    with "1.prems" have "digit_char n \<in> set ''123456789''" by (intro digit_char_nonzero)
    with True show ?thesis by (subst nat_str.simps) (auto intro: digits_end)
  next
    case False
    let ?d = "digit_char (n mod 10)"
    have d: "?d \<in> set ''0123456789''" by (rule digit_char_decimal) simp
    from False have "0 < n div 10" by simp
    with False "1.IH" [of "?d # r"] obtain c s
      where cs: "nat_str (n div 10) @ ?d # r = c # s" "c \<in> set ''123456789''"
        "digits s (?d # r)"
      by blast
    from cs(3) d have "digits s r" by (rule digits_extend [OF _ refl])
    moreover from False cs(1) have "nat_str n @ r = c # s" by (subst nat_str.simps) simp
    ultimately show ?thesis using cs(2) by blast
  qed
qed

lemma int_part_nat_str: "int_part (nat_str n @ r) r"
proof (cases "n = 0")
  case True
  then show ?thesis by (simp add: nat_str.simps digit_char_def int_zero)
next
  case False
  then obtain c s where "nat_str n @ r = c # s" "c \<in> set ''123456789''" "digits s r"
    using nat_str_nonzero [of n r] by auto
  then show ?thesis by (simp add: int_nonzero)
qed

lemma number_int_str: "number (int_str i @ r) r"
proof (cases "i < 0")
  case True
  have "number (CHR ''-'' # nat_str (nat (- i)) @ r) r"
    by (rule number.intros [OF minus_some int_part_nat_str frac_none exp_none])
  with True show ?thesis by (simp add: int_str_def)
next
  case False
  have "number (nat_str (nat i) @ r) r"
    by (rule number.intros [OF minus_none int_part_nat_str frac_none exp_none])
  with False show ?thesis by (simp add: int_str_def)
qed

subsection \<open>Strings\<close>

lemma chars_escape_char:
  assumes "chars t r"
  shows "chars (escape_char c @ t) r"
proof -
  have short: "chars (CHR 0x5C # e # t) r"
    if "e \<in> set [CHR 0x22, CHR 0x5C, CHR ''/'', CHR ''b'', CHR ''f'', CHR ''n'', CHR ''r'', CHR ''t'']"
    for e
    using that assms by (rule chars_escape)
  have long: "chars (CHR 0x5C # CHR ''u'' # digit_char k # digit_char l # digit_char m
      # digit_char n # t) r" for k l m n
    by (intro chars_unicode digit_char_hexdig assms)
  have plain: "chars (c # t) r" if "(0x20 :: nat) \<le> of_char c" "c \<noteq> CHR 0x22" "c \<noteq> CHR 0x5C"
    using that assms by (intro chars_unescaped) (simp_all add: unescaped_def)
  show ?thesis
    unfolding escape_char_def hex4_def
    by (simp add: short long plain)
qed

lemma chars_escaped: "chars (concat (map escape_char s) @ CHR 0x22 # r) r"
  by (induction s) (simp_all add: chars_end chars_escape_char)

lemma jstring_encode_str: "jstring (encode_str s @ r) r"
  by (simp add: encode_str_def jstring chars_escaped)

subsection \<open>Numbers\<close>

text \<open>A number stays a number when more text follows it.\<close>

lemma digits_append: "digits s r \<Longrightarrow> digits (s @ t) (r @ t)"
  by (induction rule: digits.induct) (auto intro: digits.intros)

lemma int_part_append: "int_part s r \<Longrightarrow> int_part (s @ t) (r @ t)"
  by (induction rule: int_part.induct) (auto intro: int_part.intros digits_append)

lemma opt_frac_append: "opt_frac s r \<Longrightarrow> opt_frac (s @ t) (r @ t)"
  by (induction rule: opt_frac.induct) (auto intro: opt_frac.intros digits_append)

lemma opt_sign_append: "opt_sign s r \<Longrightarrow> opt_sign (s @ t) (r @ t)"
  by (induction rule: opt_sign.induct) (auto intro: opt_sign.intros)

lemma opt_exp_append: "opt_exp s r \<Longrightarrow> opt_exp (s @ t) (r @ t)"
proof (induction rule: opt_exp.induct)
  case (exp_none s)
  show ?case by (rule opt_exp.exp_none)
next
  case (exp_some e s c s' r)
  from exp_some(2) have "opt_sign (s @ t) (c # s' @ t)" by (auto dest: opt_sign_append)
  moreover from exp_some(4) have "digits (s' @ t) (r @ t)" by (rule digits_append)
  ultimately have "opt_exp (e # s @ t) (r @ t)" using exp_some(1,3) by (intro opt_exp.exp_some)
  then show ?case by simp
qed

lemma opt_minus_append: "opt_minus s r \<Longrightarrow> opt_minus (s @ t) (r @ t)"
  by (induction rule: opt_minus.induct) (auto intro: opt_minus.intros)

lemma number_append: "number s r \<Longrightarrow> number (s @ t) (r @ t)"
  by (induction rule: number.induct)
    (blast intro: number.intros opt_minus_append int_part_append opt_frac_append opt_exp_append)

subsection \<open>Arrays and objects\<close>

lemma ws_space: "ws s r \<Longrightarrow> ws (CHR 0x20 # s) r"
  by (rule ws_more) simp_all

lemma elements_space:
  assumes "elements s r"
  shows "elements (CHR 0x20 # s) r"
  using assms
proof cases
  case (elements_last s1 s2)
  from ws_space [OF this(1)] this(2,3) show ?thesis
    by (rule jvalue_elements_members.elements_last)
next
  case (elements_more s1 s2 s3)
  from ws_space [OF this(1)] this(2,3,4) show ?thesis
    by (rule jvalue_elements_members.elements_more)
qed

lemma members_space:
  assumes "members s r"
  shows "members (CHR 0x20 # s) r"
  using assms
proof cases
  case (members_last s1 s2 s3 s4 s5)
  from ws_space [OF this(1)] this(2,3,4,5,6) show ?thesis
    by (rule jvalue_elements_members.members_last)
next
  case (members_more s1 s2 s3 s4 s5 s6)
  from ws_space [OF this(1)] this(2,3,4,5,6,7) show ?thesis
    by (rule jvalue_elements_members.members_more)
qed

lemma elements_join:
  assumes "\<And>x t. x \<in> set xs \<Longrightarrow> jvalue (f x @ t) t" and "xs \<noteq> []"
  shows "elements (join '', '' (map f xs) @ CHR '']'' # r) r"
  using assms
proof (induction xs)
  case Nil
  then show ?case by simp
next
  case (Cons x xs)
  note IH = Cons.IH and val = Cons.prems(1)
  show ?case
  proof (cases xs)
    case Nil
    have "jvalue (f x @ CHR '']'' # r) (CHR '']'' # r)" by (rule val) simp
    then have "elements (f x @ CHR '']'' # r) r" by (rule elements_last [OF ws_end _ ws_end])
    with Nil show ?thesis by simp
  next
    case (Cons y ys)
    let ?rest = "join '', '' (map f xs) @ CHR '']'' # r"
    have "elements ?rest r"
    proof (rule IH)
      show "jvalue (f y @ t) t" if "y \<in> set xs" for y t
        using that by (intro val) simp
      from Cons show "xs \<noteq> []" by simp
    qed
    then have e: "elements (CHR 0x20 # ?rest) r" by (rule elements_space)
    have v: "jvalue (f x @ CHR '','' # CHR 0x20 # ?rest) (CHR '','' # CHR 0x20 # ?rest)"
      by (rule val) simp
    from elements_more [OF ws_end v ws_end e] Cons show ?thesis by simp
  qed
qed

lemma members_join:
  assumes "\<And>k v t. (k, v) \<in> set kvs \<Longrightarrow> jvalue (f v @ t) t" and "kvs \<noteq> []"
  shows "members (join '', '' (map (\<lambda>(k, v). encode_str k @ '': '' @ f v) kvs) @ CHR ''}'' # r) r"
  using assms
proof (induction kvs)
  case Nil
  then show ?case by simp
next
  case (Cons kv kvs)
  note IH = Cons.IH and val = Cons.prems(1)
  obtain k v where kv: "kv = (k, v)" by (cases kv)
  have member: "members (encode_str k @ CHR '':'' # CHR 0x20 # f v @ t) r"
    if "ws t (CHR ''}'' # r)" for t r
  proof -
    have "jvalue (f v @ t) t" by (rule val [of k]) (simp add: kv)
    from members_last [OF ws_end jstring_encode_str ws_end ws_space [OF ws_end] this that]
    show ?thesis by simp
  qed
  have member_more: "members (encode_str k @ CHR '':'' # CHR 0x20 # f v @ CHR '','' # t) r"
    if "members t r" for t r
  proof -
    have "jvalue (f v @ CHR '','' # t) (CHR '','' # t)" by (rule val [of k]) (simp add: kv)
    from members_more [OF ws_end jstring_encode_str ws_end ws_space [OF ws_end] this ws_end that]
    show ?thesis by simp
  qed
  show ?case
  proof (cases kvs)
    case Nil
    with kv member [OF ws_end, of r] show ?thesis by simp
  next
    case (Cons kv' kvs')
    let ?rest = "join '', '' (map (\<lambda>(k, v). encode_str k @ '': '' @ f v) kvs) @ CHR ''}'' # r"
    have "members ?rest r"
    proof (rule IH)
      show "jvalue (f v' @ t) t" if "(k', v') \<in> set kvs" for k' v' t
        using that by (intro val [of k']) simp
      from Cons show "kvs \<noteq> []" by simp
    qed
    then have "members (CHR 0x20 # ?rest) r" by (rule members_space)
    from member_more [OF this] kv Cons show ?thesis by simp
  qed
qed

subsection \<open>Values\<close>

lemma value_json_dumps:
  "\<forall>s m e. number (frepr s m e) [] \<Longrightarrow> finite_floats v \<Longrightarrow>
   jvalue (json_dumps frepr v @ r) r"
proof (induction frepr v arbitrary: r rule: json_dumps.induct)
  case (1 frepr)
  show ?case by (simp add: json_dumps.simps value_null)
next
  case (2 frepr b)
  show ?case
    by (simp add: json_dumps.simps value_true value_false)
next
  case (3 frepr i)
  show ?case by (simp add: json_dumps.simps value_number number_int_str)
next
  case (4 frepr f)
  from "4.prems"(2) obtain s m e where f: "f = Finite s m e" by (cases f) simp_all
  from "4.prems"(1) have "number (frepr s m e) []" by blast
  then have "number (frepr s m e @ r) ([] @ r)" by (rule number_append)
  with f show ?case by (simp add: json_dumps.simps value_number)
next
  case (5 frepr s)
  show ?case by (simp add: json_dumps.simps value_string jstring_encode_str)
next
  case (6 frepr xs)
  show ?case
  proof (cases xs)
    case Nil
    have "jvalue (CHR ''['' # CHR '']'' # r) r" by (rule array_empty) (rule ws_end)
    with Nil show ?thesis by (simp add: json_dumps.simps)
  next
    case (Cons y ys)
    have "elements (join '', '' (map (json_dumps frepr) xs) @ CHR '']'' # r) r"
    proof (rule elements_join)
      show "jvalue (json_dumps frepr x @ t) t" if "x \<in> set xs" for x t
        using that "6.prems" by (intro "6.IH") (simp_all add: list_all_iff)
      from Cons show "xs \<noteq> []" by simp
    qed
    then have "jvalue (CHR ''['' # join '', '' (map (json_dumps frepr) xs) @ CHR '']'' # r) r"
      by (rule array)
    then show ?thesis by (simp add: json_dumps.simps)
  qed
next
  case (7 frepr kvs)
  show ?case
  proof (cases kvs)
    case Nil
    have "jvalue (CHR ''{'' # CHR ''}'' # r) r" by (rule object_empty) (rule ws_end)
    with Nil show ?thesis by (simp add: json_dumps.simps)
  next
    case (Cons kv kvs')
    have "members (join '', '' (map (\<lambda>(k, v). encode_str k @ '': '' @ json_dumps frepr v) kvs)
        @ CHR ''}'' # r) r"
    proof (rule members_join)
      show "jvalue (json_dumps frepr v @ t) t" if "(k, v) \<in> set kvs" for k v t
        using that "7.prems" by (intro "7.IH" [of "(k, v)" k v]) (auto simp: list_all_iff)
      from Cons show "kvs \<noteq> []" by simp
    qed
    then have "jvalue (CHR ''{'' # join '', ''
        (map (\<lambda>(k, v). encode_str k @ '': '' @ json_dumps frepr v) kvs) @ CHR ''}'' # r) r"
      by (rule object)
    then show ?thesis by (simp add: json_dumps.simps)
  qed
qed

lemma json_object_text_dumps:
  assumes "\<forall>s m e. number (frepr s m e) []" and "finite_floats (PDict kvs)"
  shows "json_object_text (json_dumps frepr (PDict kvs))"
proof -
  obtain t where t: "json_dumps frepr (PDict kvs) = CHR ''{'' # t"
    by (simp add: json_dumps.simps)
  from value_json_dumps [of frepr "PDict kvs" "[]", OF assms] t
  have "jvalue (CHR ''{'' # t) []" by simp
  with t show ?thesis by (simp add: json_object_text.intros [OF ws_end _ ws_end])
qed

section \<open>No JSON text has a capital I outside its strings\<close>

lemma bare_append: "bare m (a @ b) = bare m a @ bare (foldl step m a) b"
  by (induction a arbitrary: m) simp_all

lemma balanced_append: "balanced a \<Longrightarrow> balanced b \<Longrightarrow> balanced (a @ b)"
  by (simp add: balanced_def bare_append)

lemma eats_refl: "eats s s"
  by (simp add: eats_def balanced_def)

lemma eats_trans: "eats s t \<Longrightarrow> eats t r \<Longrightarrow> eats s r"
  unfolding eats_def
proof (elim exE conjE)
  fix x y
  assume "s = x @ t" "t = y @ r" "balanced x" "balanced y"
  then have "s = (x @ y) @ r \<and> balanced (x @ y)" by (simp add: balanced_append)
  then show "\<exists>z. s = z @ r \<and> balanced z" by blast
qed

lemma eats_char: "c \<noteq> CHR 0x22 \<Longrightarrow> c \<noteq> CHR ''I'' \<Longrightarrow> eats (c # s) s"
  unfolding eats_def by (rule exI [of _ "[c]"]) (simp add: balanced_def)

lemma eats_Cons: "c \<noteq> CHR 0x22 \<Longrightarrow> c \<noteq> CHR ''I'' \<Longrightarrow> eats s r \<Longrightarrow> eats (c # s) r"
  by (rule eats_trans [OF eats_char])

lemma ws_plain:
  "c \<in> set [CHR 0x20, CHR 0x09, CHR 0x0A, CHR 0x0D] \<Longrightarrow> c \<noteq> CHR 0x22 \<and> c \<noteq> CHR ''I''"
  by auto

lemma digit_plain: "c \<in> set ''0123456789'' \<Longrightarrow> c \<noteq> CHR 0x22 \<and> c \<noteq> CHR ''I''"
  by auto

lemma eats_ws: "ws s r \<Longrightarrow> eats s r"
proof (induction rule: ws.induct)
  case (ws_end s)
  show ?case by (rule eats_refl)
next
  case (ws_more c s r)
  from ws_plain [OF ws_more(1)] ws_more(3) show ?case by (simp add: eats_Cons)
qed

lemma eats_digits: "digits s r \<Longrightarrow> eats s r"
proof (induction rule: digits.induct)
  case (digits_end s)
  show ?case by (rule eats_refl)
next
  case (digits_more c s r)
  from digit_plain [OF digits_more(1)] digits_more(3) show ?case by (simp add: eats_Cons)
qed

lemma eats_int_part: "int_part s r \<Longrightarrow> eats s r"
proof (induction rule: int_part.induct)
  case (int_zero r)
  show ?case by (simp add: eats_char)
next
  case (int_nonzero c s r)
  from int_nonzero(1) have "c \<noteq> CHR 0x22 \<and> c \<noteq> CHR ''I''" by auto
  with eats_digits [OF int_nonzero(2)] show ?case by (simp add: eats_Cons)
qed

lemma eats_opt_frac: "opt_frac s r \<Longrightarrow> eats s r"
proof (induction rule: opt_frac.induct)
  case (frac_none s)
  show ?case by (rule eats_refl)
next
  case (frac_some c s r)
  from digit_plain [OF frac_some(1)] eats_digits [OF frac_some(2)]
  show ?case by (simp add: eats_Cons)
qed

lemma eats_opt_sign: "opt_sign s r \<Longrightarrow> eats s r"
proof (induction rule: opt_sign.induct)
  case (sign_none s)
  show ?case by (rule eats_refl)
next
  case (sign_some c s)
  then have "c \<noteq> CHR 0x22 \<and> c \<noteq> CHR ''I''" by auto
  then show ?case by (simp add: eats_char)
qed

lemma eats_opt_exp: "opt_exp s r \<Longrightarrow> eats s r"
proof (induction rule: opt_exp.induct)
  case (exp_none s)
  show ?case by (rule eats_refl)
next
  case (exp_some e s c s' r)
  from digit_plain [OF exp_some(3)] have "eats (c # s') s'" by (simp add: eats_char)
  with eats_opt_sign [OF exp_some(2)] have "eats s s'" by (rule eats_trans)
  from this eats_digits [OF exp_some(4)] have "eats s r" by (rule eats_trans)
  moreover from exp_some(1) have "e \<noteq> CHR 0x22 \<and> e \<noteq> CHR ''I''" by auto
  ultimately show ?case by (simp add: eats_Cons)
qed

lemma eats_opt_minus: "opt_minus s r \<Longrightarrow> eats s r"
proof (induction rule: opt_minus.induct)
  case (minus_none s)
  show ?case by (rule eats_refl)
next
  case (minus_some s)
  show ?case by (simp add: eats_char)
qed

lemma eats_number: "number s r \<Longrightarrow> eats s r"
proof (induction rule: number.induct)
  case (number s s1 s2 s3 r)
  from eats_opt_minus [OF number(1)] eats_int_part [OF number(2)] have "eats s s2"
    by (rule eats_trans)
  from this eats_opt_frac [OF number(3)] have "eats s s3" by (rule eats_trans)
  from this eats_opt_exp [OF number(4)] show ?case by (rule eats_trans)
qed

lemma hexdig_inside: "hexdig c \<Longrightarrow> step Inside c = Inside"
  by (auto simp: hexdig_def)

lemma step_backslash: "step Inside (CHR 0x5C) = Escaped"
  by simp

lemma bare_inside: "bare Inside (c # s) = bare (step Inside c) s"
  and bare_escaped: "bare Escaped (c # s) = bare Inside s"
  by simp_all

lemma chars_inside:
  "chars s r \<Longrightarrow> \<exists>x. s = x @ r \<and> foldl step Inside x = Outside \<and> bare Inside x = []"
proof (induction rule: chars.induct)
  case (chars_end r)
  show ?case by (rule exI [of _ "[CHR 0x22]"]) simp
next
  case (chars_unescaped c s r)
  then obtain x where "s = x @ r" "foldl step Inside x = Outside" "bare Inside x = []" by blast
  with chars_unescaped(1) show ?case
    by (intro exI [of _ "c # x"]) (simp add: unescaped_def)
next
  case (chars_escape e s r)
  then obtain x where "s = x @ r" "foldl step Inside x = Outside" "bare Inside x = []" by blast
  then show ?case by (intro exI [of _ "CHR 0x5C # e # x"]) simp
next
  case (chars_unicode a b c d s r)
  then obtain x where "s = x @ r" "foldl step Inside x = Outside" "bare Inside x = []" by blast
  with chars_unicode(1-4) show ?case
    by (intro exI [of _ "CHR 0x5C # CHR ''u'' # a # b # c # d # x"])
      (simp add: hexdig_inside step_backslash bare_inside bare_escaped
         del: step.simps(2) bare.simps)
qed

lemma eats_jstring: "jstring s r \<Longrightarrow> eats s r"
proof (induction rule: jstring.induct)
  case (jstring s r)
  then obtain x where "s = x @ r" "foldl step Inside x = Outside" "bare Inside x = []"
    by (blast dest: chars_inside)
  then show ?case unfolding eats_def
    by (intro exI [of _ "CHR 0x22 # x"]) (simp add: balanced_def)
qed

lemma eats_value: "jvalue s r \<Longrightarrow> eats s r"
  and eats_elements: "elements s r \<Longrightarrow> eats s r"
  and eats_members: "members s r \<Longrightarrow> eats s r"
proof (induction rule: jvalue_elements_members.inducts)
  case (value_false r)
  show ?case by (simp add: eats_Cons eats_char)
next
  case (value_null r)
  show ?case by (simp add: eats_Cons eats_char)
next
  case (value_true r)
  show ?case by (simp add: eats_Cons eats_char)
next
  case (value_number s r)
  then show ?case by (rule eats_number)
next
  case (value_string s r)
  then show ?case by (rule eats_jstring)
next
  case (array_empty s r)
  from eats_ws [OF this] have "eats s r" by (rule eats_trans) (simp add: eats_char)
  then show ?case by (simp add: eats_Cons)
next
  case (array s r)
  then show ?case by (simp add: eats_Cons)
next
  case (object_empty s r)
  from eats_ws [OF this] have "eats s r" by (rule eats_trans) (simp add: eats_char)
  then show ?case by (simp add: eats_Cons)
next
  case (object s r)
  then show ?case by (simp add: eats_Cons)
next
  case (elements_last s s1 s2 r)
  note h = elements_last.hyps and IH = elements_last.IH
  from eats_ws [OF h(1)] IH have "eats s s2" by (rule eats_trans)
  from this eats_ws [OF h(3)] have "eats s (CHR '']'' # r)" by (rule eats_trans)
  then show ?case by (rule eats_trans) (simp add: eats_char)
next
  case (elements_more s s1 s2 s3 r)
  note h = elements_more.hyps and IH = elements_more.IH
  from eats_ws [OF h(1)] IH(1) have "eats s s2" by (rule eats_trans)
  from this eats_ws [OF h(3)] have "eats s (CHR '','' # s3)" by (rule eats_trans)
  then have "eats s s3" by (rule eats_trans) (simp add: eats_char)
  from this IH(2) show ?case by (rule eats_trans)
next
  case (members_last s s1 s2 s3 s4 s5 r)
  note h = members_last.hyps and IH = members_last.IH
  from eats_ws [OF h(1)] eats_jstring [OF h(2)] have "eats s s2" by (rule eats_trans)
  from this eats_ws [OF h(3)] have "eats s (CHR '':'' # s3)" by (rule eats_trans)
  then have "eats s s3" by (rule eats_trans) (simp add: eats_char)
  from this eats_ws [OF h(4)] have "eats s s4" by (rule eats_trans)
  from this IH have "eats s s5" by (rule eats_trans)
  from this eats_ws [OF h(6)] have "eats s (CHR ''}'' # r)" by (rule eats_trans)
  then show ?case by (rule eats_trans) (simp add: eats_char)
next
  case (members_more s s1 s2 s3 s4 s5 s6 r)
  note h = members_more.hyps and IH = members_more.IH
  from eats_ws [OF h(1)] eats_jstring [OF h(2)] have "eats s s2" by (rule eats_trans)
  from this eats_ws [OF h(3)] have "eats s (CHR '':'' # s3)" by (rule eats_trans)
  then have "eats s s3" by (rule eats_trans) (simp add: eats_char)
  from this eats_ws [OF h(4)] have "eats s s4" by (rule eats_trans)
  from this IH(1) have "eats s s5" by (rule eats_trans)
  from this eats_ws [OF h(6)] have "eats s (CHR '','' # s6)" by (rule eats_trans)
  then have "eats s s6" by (rule eats_trans) (simp add: eats_char)
  from this IH(2) show ?case by (rule eats_trans)
qed

lemma json_text_balanced: "json_text s \<Longrightarrow> balanced s"
proof (induction rule: json_text.induct)
  case (json_text s s1 s2)
  from eats_ws [OF json_text(1)] eats_value [OF json_text(2)] have "eats s s2"
    by (rule eats_trans)
  from this eats_ws [OF json_text(3)] have "eats s []" by (rule eats_trans)
  then show ?case by (simp add: eats_def)
qed

lemma json_object_text_is_json_text: "json_object_text s \<Longrightarrow> json_text s"
  by (induction rule: json_object_text.induct) (rule json_text.intros)

section \<open>The sample inputs\<close>

lemma sample_frepr_number: "\<forall>s m e. number (sample_frepr s m e) []"
proof (intro allI)
  fix s m e
  have "opt_frac ''.0'' []" by (rule frac_some) (simp_all add: digits_end)
  with minus_none int_zero have "number ''0.0'' []" using exp_none by (rule number.intros)
  then show "number (sample_frepr s m e) []" by (simp add: sample_frepr_def)
qed

lemma overflowing_number_is_json: \<open>json_object_text ''{"taskId": 1e999}''\<close>
proof -
  have d: "digits ''99}'' ''}''"
    by (rule digits_more, simp, rule digits_more, simp, rule digits_end)
  have e: "opt_exp ''e999}'' ''}''"
    by (rule exp_some [OF _ sign_none _ d]) simp_all
  have i: "int_part ''1e999}'' ''e999}''"
    by (rule int_nonzero [OF _ digits_end]) simp
  have "number ''1e999}'' ''}''"
    by (rule number.intros [OF minus_none i frac_none e])
  then have v: "jvalue ''1e999}'' ''}''" by (rule value_number)
  have \<open>chars ''taskId": 1e999}'' '': 1e999}''\<close>
    by ((rule chars_unescaped, (simp add: unescaped_def; fail))+, rule chars_end)
  then have k: \<open>jstring ''"taskId": 1e999}'' '': 1e999}''\<close> by (rule jstring)
  have \<open>members ''"taskId": 1e999}'' []\<close>
    by (rule members_last [OF ws_end k ws_end ws_space [OF ws_end] v ws_end])
  then have \<open>jvalue ''{"taskId": 1e999}'' []\<close> by (rule object)
  with ws_end show ?thesis using ws_end by (rule json_object_text.intros)
qed

section \<open>The claims\<close>

text \<open>
  C1. Whenever standard input parses to a JSON object whose \<^verbatim>\<open>inputData\<close> is an object
  with a string \<^verbatim>\<open>name\<close>, the worker prints one Result with status \<^verbatim>\<open>COMPLETED\<close> whose
  \<^verbatim>\<open>output.message\<close> is \<^verbatim>\<open>"Hello, " + name + "!"\<close>. The witness is the name
  \<^verbatim>\<open>Alice\<close>, with the message \<^verbatim>\<open>Hello, Alice!\<close>.
\<close>

theorem greeting_for_name:
  assumes "json_load stdin = Inr (PDict task)"
    and "map_of task ''inputData'' = Some (PDict input_data)"
    and "map_of input_data ''name'' = Some (PStr name)"
  shows "\<exists>task_id workflow_id logs.
    worker json_load frepr stdin =
      \<lparr>stdout = [json_dumps frepr (PDict
         [(''status'', PStr ''COMPLETED''),
          (''output'', PDict
             [(''message'', PStr (''Hello, '' @ name @ ''!'')),
              (''taskId'', task_id),
              (''workflowId'', workflow_id)]),
          (''logs'', logs)])],
       exit_status = 0\<rparr>"
proof -
  from assms(2) have "field_or task ''inputData'' (PDict []) = PDict input_data"
    by (simp add: field_or_def)
  with assms(1,3) main_completed [of json_load stdin task input_data frepr]
  have "main json_load frepr stdin =
    ([json_dumps frepr (PDict
        [(''status'', PStr ''COMPLETED''),
         (''output'', PDict
            [(''message'', PStr (''Hello, '' @ name @ ''!'')),
             (''taskId'', field_or task ''taskId'' (PStr ''unknown'')),
             (''workflowId'', field_or task ''workflowInstanceId'' (PStr ''unknown''))]),
         (''logs'', PList
            [PStr (''Processing task ''
                @ format frepr (field_or task ''taskId'' (PStr ''unknown''))
                @ '' of type '' @ format frepr (field_or task ''taskType'' (PStr ''unknown''))),
             PStr (''Workflow: ''
                @ format frepr (field_or task ''workflowInstanceId'' (PStr ''unknown''))),
             PStr (''Generated greeting for '' @ name)])])],
     None)"
    by (simp add: field_or_def)
  from worker_returned [OF this] show ?thesis by blast
qed

theorem greeting_for_name_witness:
  \<open>\<exists>task_id workflow_id logs.
    worker sample_load sample_frepr ''{"inputData": {"name": "Alice"}}'' =
      \<lparr>stdout = [json_dumps sample_frepr (PDict
         [(''status'', PStr ''COMPLETED''),
          (''output'', PDict
             [(''message'', PStr ''Hello, Alice!''),
              (''taskId'', task_id),
              (''workflowId'', workflow_id)]),
          (''logs'', logs)])],
       exit_status = 0\<rparr>\<close>
  using greeting_for_name [of sample_load \<open>''{"inputData": {"name": "Alice"}}''\<close>
      "[(''inputData'', PDict [(''name'', PStr ''Alice'')])]" "[(''name'', PStr ''Alice'')]"
      "''Alice''" sample_frepr]
  by (simp add: sample_load_def)

text \<open>
  C2. Whenever standard input parses to a JSON object, the Result is computed from the
  resolved fields, each absent field taking its default: \<^verbatim>\<open>inputData\<close> the empty mapping,
  \<^verbatim>\<open>name\<close> within it \<^verbatim>\<open>World\<close>, and \<^verbatim>\<open>taskId\<close>, \<^verbatim>\<open>workflowInstanceId\<close> and \<^verbatim>\<open>taskType\<close>
  the string \<^verbatim>\<open>unknown\<close>. When the resolved \<^verbatim>\<open>inputData\<close> is not an object the Result is the
  failure of C4, which shows no other field. In particular the input \<^verbatim>\<open>{}\<close> gives the
  line of the spec's second scenario.
\<close>

theorem absent_fields_defaulted:
  assumes "json_load stdin = Inr (PDict task)"
  shows \<open>(case field_or task ''inputData'' (PDict []) of
      PDict input_data \<Rightarrow>
        worker json_load frepr stdin =
          \<lparr>stdout = [json_dumps frepr (PDict
             [(''status'', PStr ''COMPLETED''),
              (''output'', PDict
                 [(''message'', PStr (''Hello, ''
                     @ format frepr (field_or input_data ''name'' (PStr ''World'')) @ ''!'')),
                  (''taskId'', field_or task ''taskId'' (PStr ''unknown'')),
                  (''workflowId'', field_or task ''workflowInstanceId'' (PStr ''unknown''))]),
              (''logs'', PList
                 [PStr (''Processing task ''
                     @ format frepr (field_or task ''taskId'' (PStr ''unknown''))
                     @ '' of type ''
                     @ format frepr (field_or task ''taskType'' (PStr ''unknown''))),
                  PStr (''Workflow: ''
                     @ format frepr (field_or task ''workflowInstanceId'' (PStr ''unknown''))),
                  PStr (''Generated greeting for ''
                     @ format frepr (field_or input_data ''name'' (PStr ''World'')))])])],
           exit_status = 0\<rparr>
    | x \<Rightarrow>
        worker json_load frepr stdin =
          \<lparr>stdout = [json_dumps frepr (PDict
             [(''status'', PStr ''FAILED''),
              (''reason'', PStr (exn_str (no_attribute x ''get''))),
              (''logs'', PList
                 [PStr (''Error processing task: '' @ exn_str (no_attribute x ''get''))])])],
           exit_status = 0\<rparr>)
    \<and> (task = [] \<longrightarrow>
         stdout (worker json_load frepr stdin) =
           [''{"status": "COMPLETED", "output": {"message": "Hello, World!", "taskId": "unknown", "workflowId": "unknown"}, "logs": ["Processing task unknown of type unknown", "Workflow: unknown", "Generated greeting for World"]}''])\<close>
proof (intro conjI impI)
  have completed: "worker json_load frepr stdin =
      \<lparr>stdout = [json_dumps frepr (PDict
         [(''status'', PStr ''COMPLETED''),
          (''output'', PDict
             [(''message'', PStr (''Hello, ''
                 @ format frepr (field_or input_data ''name'' (PStr ''World'')) @ ''!'')),
              (''taskId'', field_or task ''taskId'' (PStr ''unknown'')),
              (''workflowId'', field_or task ''workflowInstanceId'' (PStr ''unknown''))]),
          (''logs'', PList
             [PStr (''Processing task ''
                 @ format frepr (field_or task ''taskId'' (PStr ''unknown''))
                 @ '' of type ''
                 @ format frepr (field_or task ''taskType'' (PStr ''unknown''))),
              PStr (''Workflow: ''
                 @ format frepr (field_or task ''workflowInstanceId'' (PStr ''unknown''))),
              PStr (''Generated greeting for ''
                 @ format frepr (field_or input_data ''name'' (PStr ''World'')))])])],
       exit_status = 0\<rparr>"
    if "field_or task ''inputData'' (PDict []) = PDict input_data" for input_data
    by (rule worker_returned, rule main_completed) (rule assms that)+
  have failed: "worker json_load frepr stdin =
      \<lparr>stdout = [json_dumps frepr (PDict
         [(''status'', PStr ''FAILED''),
          (''reason'', PStr (exn_str (no_attribute x ''get''))),
          (''logs'', PList
             [PStr (''Error processing task: '' @ exn_str (no_attribute x ''get''))])])],
       exit_status = 0\<rparr>"
    if "field_or task ''inputData'' (PDict []) = x" "\<forall>d. x \<noteq> PDict d" for x
  proof -
    from that have "map_of task ''inputData'' = Some x"
      by (auto simp: field_or_def split: option.splits)
    with assms have "main json_load frepr stdin = ([], Some (no_attribute x ''get''))"
      using that(2) by (rule main_input_data_not_object)
    then show ?thesis by (rule worker_failed)
  qed
  show "case field_or task ''inputData'' (PDict []) of
      PDict input_data \<Rightarrow>
        worker json_load frepr stdin =
          \<lparr>stdout = [json_dumps frepr (PDict
             [(''status'', PStr ''COMPLETED''),
              (''output'', PDict
                 [(''message'', PStr (''Hello, ''
                     @ format frepr (field_or input_data ''name'' (PStr ''World'')) @ ''!'')),
                  (''taskId'', field_or task ''taskId'' (PStr ''unknown'')),
                  (''workflowId'', field_or task ''workflowInstanceId'' (PStr ''unknown''))]),
              (''logs'', PList
                 [PStr (''Processing task ''
                     @ format frepr (field_or task ''taskId'' (PStr ''unknown''))
                     @ '' of type ''
                     @ format frepr (field_or task ''taskType'' (PStr ''unknown''))),
                  PStr (''Workflow: ''
                     @ format frepr (field_or task ''workflowInstanceId'' (PStr ''unknown''))),
                  PStr (''Generated greeting for ''
                     @ format frepr (field_or input_data ''name'' (PStr ''World'')))])])],
           exit_status = 0\<rparr>
    | x \<Rightarrow>
        worker json_load frepr stdin =
          \<lparr>stdout = [json_dumps frepr (PDict
             [(''status'', PStr ''FAILED''),
              (''reason'', PStr (exn_str (no_attribute x ''get''))),
              (''logs'', PList
                 [PStr (''Error processing task: '' @ exn_str (no_attribute x ''get''))])])],
           exit_status = 0\<rparr>"
  proof (cases "field_or task ''inputData'' (PDict [])")
    case PNone
    with failed [of PNone] show ?thesis by simp
  next
    case (PBool b)
    with failed [of "PBool b"] show ?thesis by simp
  next
    case (PInt i)
    with failed [of "PInt i"] show ?thesis by simp
  next
    case (PFloat f)
    with failed [of "PFloat f"] show ?thesis by simp
  next
    case (PStr s)
    with failed [of "PStr s"] show ?thesis by simp
  next
    case (PList xs)
    with failed [of "PList xs"] show ?thesis by simp
  next
    case (PDict d)
    with completed [of d] show ?thesis by simp
  qed
  assume "task = []"
  with completed [of "[]"]
  show \<open>stdout (worker json_load frepr stdin) =
           [''{"status": "COMPLETED", "output": {"message": "Hello, World!", "taskId": "unknown", "workflowId": "unknown"}, "logs": ["Processing task unknown of type unknown", "Workflow: unknown", "Generated greeting for World"]}'']\<close>
    by (simp add: field_or_def json_dumps.simps encode_str_def escape_char_def)
qed

theorem absent_fields_defaulted_witness:
  \<open>sample_load ''{}'' = Inr (PDict []) \<and>
   worker sample_load sample_frepr ''{}'' =
     \<lparr>stdout = [''{"status": "COMPLETED", "output": {"message": "Hello, World!", "taskId": "unknown", "workflowId": "unknown"}, "logs": ["Processing task unknown of type unknown", "Workflow: unknown", "Generated greeting for World"]}''],
      exit_status = 0\<rparr>\<close>
  using absent_fields_defaulted [of sample_load "''{}''" "[]" sample_frepr]
  by (simp add: sample_load_def field_or_def json_dumps.simps encode_str_def escape_char_def)

text \<open>
  C3. Whenever standard input parses to a JSON object and \<^verbatim>\<open>main\<close> returns without
  raising, \<^verbatim>\<open>output.taskId\<close> is the input's \<^verbatim>\<open>taskId\<close> and \<^verbatim>\<open>output.workflowId\<close> is the
  input's \<^verbatim>\<open>workflowInstanceId\<close>, each \<^verbatim>\<open>unknown\<close> when absent; the keys of \<^verbatim>\<open>output\<close>
  are \<^verbatim>\<open>message\<close>, \<^verbatim>\<open>taskId\<close> and \<^verbatim>\<open>workflowId\<close>, and \<^verbatim>\<open>workflowInstanceId\<close> is not
  among them.
\<close>

theorem ids_echoed_workflow_key_renamed:
  assumes "json_load stdin = Inr (PDict task)"
    and "snd (main json_load frepr stdin) = None"
  shows "\<exists>output logs.
    stdout (worker json_load frepr stdin) =
      [json_dumps frepr (PDict
         [(''status'', PStr ''COMPLETED''), (''output'', PDict output), (''logs'', logs)])]
    \<and> map_of output ''taskId'' = Some (field_or task ''taskId'' (PStr ''unknown''))
    \<and> map_of output ''workflowId'' =
          Some (field_or task ''workflowInstanceId'' (PStr ''unknown''))
    \<and> map_of output ''workflowInstanceId'' = None
    \<and> map fst output = [''message'', ''taskId'', ''workflowId'']"
proof (cases rule: main_cases [of json_load stdin])
  case (load_raises e)
  with assms(1) show ?thesis by simp
next
  case (not_object v)
  with assms(1) show ?thesis by simp
next
  case (input_data_not_object task' x)
  with main_input_data_not_object [of json_load stdin task' x frepr] assms(2)
  show ?thesis by simp
next
  case (completed task' input_data)
  with assms(1) have "field_or task ''inputData'' (PDict []) = PDict input_data" by simp
  with assms(1) have "main json_load frepr stdin =
    ([json_dumps frepr (PDict
        [(''status'', PStr ''COMPLETED''),
         (''output'', PDict
            [(''message'', PStr (''Hello, ''
                @ format frepr (field_or input_data ''name'' (PStr ''World'')) @ ''!'')),
             (''taskId'', field_or task ''taskId'' (PStr ''unknown'')),
             (''workflowId'', field_or task ''workflowInstanceId'' (PStr ''unknown''))]),
         (''logs'', PList
            [PStr (''Processing task ''
                @ format frepr (field_or task ''taskId'' (PStr ''unknown''))
                @ '' of type '' @ format frepr (field_or task ''taskType'' (PStr ''unknown''))),
             PStr (''Workflow: ''
                @ format frepr (field_or task ''workflowInstanceId'' (PStr ''unknown''))),
             PStr (''Generated greeting for ''
                @ format frepr (field_or input_data ''name'' (PStr ''World'')))])])],
     None)"
    by (rule main_completed)
  from worker_returned [OF this] show ?thesis
    by (intro exI [of _ "[(''message'', PStr (''Hello, ''
                @ format frepr (field_or input_data ''name'' (PStr ''World'')) @ ''!'')),
             (''taskId'', field_or task ''taskId'' (PStr ''unknown'')),
             (''workflowId'', field_or task ''workflowInstanceId'' (PStr ''unknown''))]"]
          exI [of _ "PList
            [PStr (''Processing task ''
                @ format frepr (field_or task ''taskId'' (PStr ''unknown''))
                @ '' of type '' @ format frepr (field_or task ''taskType'' (PStr ''unknown''))),
             PStr (''Workflow: ''
                @ format frepr (field_or task ''workflowInstanceId'' (PStr ''unknown''))),
             PStr (''Generated greeting for ''
                @ format frepr (field_or input_data ''name'' (PStr ''World'')))]"])
       simp
qed

theorem ids_echoed_workflow_key_renamed_witness:
  \<open>\<exists>output logs.
    stdout (worker sample_load sample_frepr
      ''{"taskId":"t1","workflowInstanceId":"w1","taskType":"greet","inputData":{"name":"Bob"}}'') =
      [json_dumps sample_frepr (PDict
         [(''status'', PStr ''COMPLETED''), (''output'', PDict output), (''logs'', logs)])]
    \<and> map_of output ''taskId'' = Some (PStr ''t1'')
    \<and> map_of output ''workflowId'' = Some (PStr ''w1'')
    \<and> map_of output ''workflowInstanceId'' = None
    \<and> map fst output = [''message'', ''taskId'', ''workflowId'']\<close>
  using ids_echoed_workflow_key_renamed [of sample_load
      \<open>''{"taskId":"t1","workflowInstanceId":"w1","taskType":"greet","inputData":{"name":"Bob"}}''\<close>
      "[(''taskId'', PStr ''t1''), (''workflowInstanceId'', PStr ''w1''),
        (''taskType'', PStr ''greet''), (''inputData'', PDict [(''name'', PStr ''Bob'')])]"
      sample_frepr]
  by (simp add: sample_load_def main_def field_or_def)

text \<open>
  C4. Whenever standard input parses to a JSON object whose \<^verbatim>\<open>inputData\<close> is present
  and not an object, \<^verbatim>\<open>main\<close> raises the \<^verbatim>\<open>AttributeError\<close> of the missing \<^verbatim>\<open>get\<close>
  before printing anything, and the handler prints one Result with status \<^verbatim>\<open>FAILED\<close>,
  \<^verbatim>\<open>reason\<close> the text of the error and one log entry describing it. The witness is the
  spec's third scenario.
\<close>

theorem input_data_not_object_fails:
  assumes "json_load stdin = Inr (PDict task)"
    and "map_of task ''inputData'' = Some x"
    and "type_name x \<noteq> ''dict''"
  shows "main json_load frepr stdin = ([], Some (no_attribute x ''get''))
    \<and> worker json_load frepr stdin =
      \<lparr>stdout = [json_dumps frepr (PDict
         [(''status'', PStr ''FAILED''),
          (''reason'', PStr (exn_str (no_attribute x ''get''))),
          (''logs'', PList
             [PStr (''Error processing task: '' @ exn_str (no_attribute x ''get''))])])],
       exit_status = 0\<rparr>"
proof -
  from assms(3) have "\<forall>d. x \<noteq> PDict d" by (simp add: not_dict_iff)
  with assms(1,2) have "main json_load frepr stdin = ([], Some (no_attribute x ''get''))"
    by (rule main_input_data_not_object)
  with worker_failed [OF this] show ?thesis by simp
qed

theorem input_data_not_object_fails_witness:
  \<open>main sample_load sample_frepr ''{"inputData": "not-an-object"}'' =
     ([], Some (AttributeError ([CHR 0x27] @ ''str' object has no attribute 'get'' @ [CHR 0x27])))
   \<and> worker sample_load sample_frepr ''{"inputData": "not-an-object"}'' =
     \<lparr>stdout = [''{"status": "FAILED", "reason": "'str' object has no attribute 'get'", "logs": ["Error processing task: 'str' object has no attribute 'get'"]}''],
      exit_status = 0\<rparr>\<close>
  using input_data_not_object_fails [of sample_load \<open>''{"inputData": "not-an-object"}''\<close>
      "[(''inputData'', PStr ''not-an-object'')]" "PStr ''not-an-object''" sample_frepr]
  by (simp add: sample_load_def no_attribute_def json_dumps.simps encode_str_def escape_char_def)

text \<open>
  C5. On every input the printed Result either has status \<^verbatim>\<open>COMPLETED\<close> and exactly
  three log entries, naming the resolved task id and task type, the resolved workflow id,
  and the resolved name a greeting was generated for, or has status \<^verbatim>\<open>FAILED\<close> and
  exactly one log entry.
\<close>

theorem logs_three_or_one:
  "(\<exists>task input_data output logs.
      json_load stdin = Inr (PDict task)
      \<and> field_or task ''inputData'' (PDict []) = PDict input_data
      \<and> stdout (worker json_load frepr stdin) =
           [json_dumps frepr (PDict
              [(''status'', PStr ''COMPLETED''), (''output'', output), (''logs'', PList logs)])]
      \<and> length logs = 3
      \<and> logs =
           [PStr (''Processing task ''
               @ format frepr (field_or task ''taskId'' (PStr ''unknown''))
               @ '' of type '' @ format frepr (field_or task ''taskType'' (PStr ''unknown''))),
            PStr (''Workflow: ''
               @ format frepr (field_or task ''workflowInstanceId'' (PStr ''unknown''))),
            PStr (''Generated greeting for ''
               @ format frepr (field_or input_data ''name'' (PStr ''World'')))])
   \<or> (\<exists>reason logs.
      stdout (worker json_load frepr stdin) =
        [json_dumps frepr (PDict
           [(''status'', PStr ''FAILED''), (''reason'', PStr reason), (''logs'', PList logs)])]
      \<and> length logs = 1
      \<and> logs = [PStr (''Error processing task: '' @ reason)])"
proof (cases rule: main_cases [of json_load stdin])
  case (load_raises e)
  then have "main json_load frepr stdin = ([], Some e)" by (rule main_load_raises)
  then show ?thesis by (intro disjI2 worker_failed_logs)
next
  case (not_object task)
  then have "main json_load frepr stdin = ([], Some (no_attribute task ''get''))"
    by (rule main_not_object)
  then show ?thesis by (intro disjI2 worker_failed_logs)
next
  case (input_data_not_object task x)
  then have "main json_load frepr stdin = ([], Some (no_attribute x ''get''))"
    by (rule main_input_data_not_object)
  then show ?thesis by (intro disjI2 worker_failed_logs)
next
  case (completed task input_data)
  show ?thesis
  proof (intro disjI1 exI conjI)
    show "json_load stdin = Inr (PDict task)"
      and "field_or task ''inputData'' (PDict []) = PDict input_data"
      by fact+
    from worker_returned [OF main_completed [of json_load stdin task input_data frepr, OF completed]]
    show "stdout (worker json_load frepr stdin) =
      [json_dumps frepr (PDict
         [(''status'', PStr ''COMPLETED''),
          (''output'', PDict
             [(''message'', PStr (''Hello, ''
                 @ format frepr (field_or input_data ''name'' (PStr ''World'')) @ ''!'')),
              (''taskId'', field_or task ''taskId'' (PStr ''unknown'')),
              (''workflowId'', field_or task ''workflowInstanceId'' (PStr ''unknown''))]),
          (''logs'', PList
             [PStr (''Processing task ''
                 @ format frepr (field_or task ''taskId'' (PStr ''unknown''))
                 @ '' of type ''
                 @ format frepr (field_or task ''taskType'' (PStr ''unknown''))),
              PStr (''Workflow: ''
                 @ format frepr (field_or task ''workflowInstanceId'' (PStr ''unknown''))),
              PStr (''Generated greeting for ''
                 @ format frepr (field_or input_data ''name'' (PStr ''World'')))])])]"
      by simp
  qed simp_all
qed

theorem logs_three_or_one_witness:
  \<open>stdout (worker sample_load sample_frepr ''{"inputData": {"name": "Alice"}}'') =
     [json_dumps sample_frepr (PDict
        [(''status'', PStr ''COMPLETED''),
         (''output'', PDict [(''message'', PStr ''Hello, Alice!''),
            (''taskId'', PStr ''unknown''), (''workflowId'', PStr ''unknown'')]),
         (''logs'', PList
            [PStr ''Processing task unknown of type unknown'',
             PStr ''Workflow: unknown'',
             PStr ''Generated greeting for Alice''])])]
   \<and> stdout (worker sample_load sample_frepr ''[1, 2]'') =
     [json_dumps sample_frepr (PDict
        [(''status'', PStr ''FAILED''),
         (''reason'', PStr ([CHR 0x27] @ ''list' object has no attribute 'get'' @ [CHR 0x27])),
         (''logs'', PList
            [PStr (''Error processing task: '' @ [CHR 0x27]
               @ ''list' object has no attribute 'get'' @ [CHR 0x27])])])]\<close>
  using logs_three_or_one [of sample_load \<open>''{"inputData": {"name": "Alice"}}''\<close> sample_frepr]
    logs_three_or_one [of sample_load "''[1, 2]''" sample_frepr]
  by (simp add: sample_load_def worker_def main_def field_or_def no_attribute_def)

lemma finite_floats_failed:
  "finite_floats (PDict
     [(''status'', PStr ''FAILED''), (''reason'', PStr reason), (''logs'', PList [PStr entry])])"
  by simp

text \<open>
  C6, as amended. Whenever standard input parses to a JSON object in which the values of
  \<^verbatim>\<open>taskId\<close> and \<^verbatim>\<open>workflowInstanceId\<close> (or their default) hold no infinity and no NaN, the
  worker prints exactly one line and the line is a syntactically valid JSON object. The
  first hypothesis is about the interpreter: \<^verbatim>\<open>float.__repr__\<close> of a finite double is a JSON
  number.
\<close>

theorem one_json_object_line:
  assumes "\<forall>s m e. number (frepr s m e) []"
    and "json_load stdin = Inr (PDict task)"
    and "finite_floats (field_or task ''taskId'' (PStr ''unknown''))"
    and "finite_floats (field_or task ''workflowInstanceId'' (PStr ''unknown''))"
  shows "\<exists>line. stdout (worker json_load frepr stdin) = [line] \<and> json_object_text line"
proof (cases rule: main_cases [of json_load stdin])
  case (load_raises e)
  with assms(2) show ?thesis by simp
next
  case (not_object v)
  with assms(2) show ?thesis by simp
next
  case (input_data_not_object task' x)
  then have "main json_load frepr stdin = ([], Some (no_attribute x ''get''))"
    by (rule main_input_data_not_object)
  from worker_failed [OF this] json_object_text_dumps [OF assms(1) finite_floats_failed]
  show ?thesis by simp
next
  case (completed task' input_data)
  with assms(2) have task': "task' = task" by simp
  let ?result = "PDict
    [(''status'', PStr ''COMPLETED''),
     (''output'', PDict
        [(''message'', PStr (''Hello, ''
            @ format frepr (field_or input_data ''name'' (PStr ''World'')) @ ''!'')),
         (''taskId'', field_or task ''taskId'' (PStr ''unknown'')),
         (''workflowId'', field_or task ''workflowInstanceId'' (PStr ''unknown''))]),
     (''logs'', PList
        [PStr (''Processing task ''
            @ format frepr (field_or task ''taskId'' (PStr ''unknown''))
            @ '' of type '' @ format frepr (field_or task ''taskType'' (PStr ''unknown''))),
         PStr (''Workflow: ''
            @ format frepr (field_or task ''workflowInstanceId'' (PStr ''unknown''))),
         PStr (''Generated greeting for ''
            @ format frepr (field_or input_data ''name'' (PStr ''World'')))])]"
  from completed task' have "main json_load frepr stdin = ([json_dumps frepr ?result], None)"
    by (intro main_completed) simp_all
  then have "stdout (worker json_load frepr stdin) = [json_dumps frepr ?result]"
    by (simp add: worker_returned)
  moreover from assms(3,4) have "finite_floats ?result" by simp
  with assms(1) have "json_object_text (json_dumps frepr ?result)"
    by (rule json_object_text_dumps)
  ultimately show ?thesis by blast
qed

theorem one_json_object_line_witness:
  \<open>stdout (worker sample_load sample_frepr
      ''{"taskId":"t1","workflowInstanceId":"w1","taskType":"greet","inputData":{"name":"Bob"}}'') =
     [''{"status": "COMPLETED", "output": {"message": "Hello, Bob!", "taskId": "t1", "workflowId": "w1"}, "logs": ["Processing task t1 of type greet", "Workflow: w1", "Generated greeting for Bob"]}'']
   \<and> json_object_text
     ''{"status": "COMPLETED", "output": {"message": "Hello, Bob!", "taskId": "t1", "workflowId": "w1"}, "logs": ["Processing task t1 of type greet", "Workflow: w1", "Generated greeting for Bob"]}''\<close>
  using one_json_object_line [of sample_frepr sample_load
      \<open>''{"taskId":"t1","workflowInstanceId":"w1","taskType":"greet","inputData":{"name":"Bob"}}''\<close>
      "[(''taskId'', PStr ''t1''), (''workflowInstanceId'', PStr ''w1''),
        (''taskType'', PStr ''greet''), (''inputData'', PDict [(''name'', PStr ''Bob'')])]"]
    sample_frepr_number
  by (simp add: sample_load_def worker_def main_def field_or_def json_dumps.simps
        encode_str_def escape_char_def)

text \<open>
  C6 as the spec states it fails. The JSON object \<^verbatim>\<open>{"taskId": 1e999}\<close> is syntactically
  valid, \<^verbatim>\<open>json.load\<close> reads its number as the float infinity, and the worker echoes it as
  the token \<^verbatim>\<open>Infinity\<close>, which no JSON value contains outside a string.
\<close>

theorem infinity_is_not_json:
  \<open>json_object_text ''{"taskId": 1e999}''
   \<and> stdout (worker sample_load sample_frepr ''{"taskId": 1e999}'') =
     [''{"status": "COMPLETED", "output": {"message": "Hello, World!", "taskId": Infinity, "workflowId": "unknown"}, "logs": ["Processing task inf of type unknown", "Workflow: unknown", "Generated greeting for World"]}'']
   \<and> \<not> json_object_text
     ''{"status": "COMPLETED", "output": {"message": "Hello, World!", "taskId": Infinity, "workflowId": "unknown"}, "logs": ["Processing task inf of type unknown", "Workflow: unknown", "Generated greeting for World"]}''\<close>
proof (intro conjI)
  show \<open>json_object_text ''{"taskId": 1e999}''\<close> by (rule overflowing_number_is_json)
  show \<open>stdout (worker sample_load sample_frepr ''{"taskId": 1e999}'') =
     [''{"status": "COMPLETED", "output": {"message": "Hello, World!", "taskId": Infinity, "workflowId": "unknown"}, "logs": ["Processing task inf of type unknown", "Workflow: unknown", "Generated greeting for World"]}'']\<close>
    by (simp add: sample_load_def worker_def main_def json_dumps.simps encode_str_def
          escape_char_def repr.simps)
  have \<open>\<not> balanced
     ''{"status": "COMPLETED", "output": {"message": "Hello, World!", "taskId": Infinity, "workflowId": "unknown"}, "logs": ["Processing task inf of type unknown", "Workflow: unknown", "Generated greeting for World"]}''\<close>
    by (simp add: balanced_def)
  then show \<open>\<not> json_object_text
     ''{"status": "COMPLETED", "output": {"message": "Hello, World!", "taskId": Infinity, "workflowId": "unknown"}, "logs": ["Processing task inf of type unknown", "Workflow: unknown", "Generated greeting for World"]}''\<close>
    by (blast dest: json_text_balanced json_object_text_is_json_text)
qed




text \<open>
  C8. On every standard input the worker prints exactly one line, which is what
  \<^verbatim>\<open>json.dumps\<close> writes for a Result whose status is \<^verbatim>\<open>COMPLETED\<close> or \<^verbatim>\<open>FAILED\<close>, and
  exits with status 0 on both paths.
\<close>

theorem one_result_line_then_exit:
  "\<exists>status rest.
     worker json_load frepr stdin =
       \<lparr>stdout = [json_dumps frepr (PDict ((''status'', PStr status) # rest))],
        exit_status = 0\<rparr>
     \<and> (status = ''COMPLETED'' \<or> status = ''FAILED'')
     \<and> length (stdout (worker json_load frepr stdin)) = 1"
proof -
  have failed: ?thesis if "main json_load frepr stdin = ([], Some e)" for e
    using worker_failed [OF that]
    by (intro exI [of _ "''FAILED''"] exI [of _ "[(''reason'', PStr (exn_str e)),
          (''logs'', PList [PStr (''Error processing task: '' @ exn_str e)])]"]) simp
  show ?thesis
  proof (cases rule: main_cases [of json_load stdin])
    case (load_raises e)
    then have "main json_load frepr stdin = ([], Some e)" by (rule main_load_raises)
    then show ?thesis by (rule failed)
  next
    case (not_object task)
    then have "main json_load frepr stdin = ([], Some (no_attribute task ''get''))"
      by (rule main_not_object)
    then show ?thesis by (rule failed)
  next
    case (input_data_not_object task x)
    then have "main json_load frepr stdin = ([], Some (no_attribute x ''get''))"
      by (rule main_input_data_not_object)
    then show ?thesis by (rule failed)
  next
    case (completed task input_data)
    from worker_returned [OF main_completed [of json_load stdin task input_data frepr, OF completed]]
    show ?thesis
      by (intro exI [of _ "''COMPLETED''"] exI [of _ "[(''output'', PDict
             [(''message'', PStr (''Hello, ''
                 @ format frepr (field_or input_data ''name'' (PStr ''World'')) @ ''!'')),
              (''taskId'', field_or task ''taskId'' (PStr ''unknown'')),
              (''workflowId'', field_or task ''workflowInstanceId'' (PStr ''unknown''))]),
          (''logs'', PList
             [PStr (''Processing task ''
                 @ format frepr (field_or task ''taskId'' (PStr ''unknown''))
                 @ '' of type ''
                 @ format frepr (field_or task ''taskType'' (PStr ''unknown''))),
              PStr (''Workflow: ''
                 @ format frepr (field_or task ''workflowInstanceId'' (PStr ''unknown''))),
              PStr (''Generated greeting for ''
                 @ format frepr (field_or input_data ''name'' (PStr ''World'')))])]"]) simp
  qed
qed

theorem one_result_line_then_exit_witness:
  \<open>worker sample_load sample_frepr ''not json'' =
     \<lparr>stdout = [''{"status": "FAILED", "reason": "Expecting value: line 1 column 1 (char 0)", "logs": ["Error processing task: Expecting value: line 1 column 1 (char 0)"]}''],
      exit_status = 0\<rparr>\<close>
  using one_result_line_then_exit [of sample_load sample_frepr "''not json''"]
  by (simp add: sample_load_def worker_def main_def json_dumps.simps encode_str_def
        escape_char_def)

text \<open>
  C9. Whenever standard input is not a JSON object, because \<^verbatim>\<open>json.load\<close> raises or
  because it returns a value that is not a dict, \<^verbatim>\<open>main\<close> ends with that error before
  printing anything, and the handler prints one Result with status \<^verbatim>\<open>FAILED\<close>,
  \<^verbatim>\<open>reason\<close> the text of the error and one log entry: the handler covers the parse step.
\<close>

theorem non_object_stdin_fails:
  assumes "json_load stdin = Inl e
    \<or> (\<exists>v. json_load stdin = Inr v \<and> type_name v \<noteq> ''dict'' \<and> e = no_attribute v ''get'')"
  shows "main json_load frepr stdin = ([], Some e)
    \<and> worker json_load frepr stdin =
      \<lparr>stdout = [json_dumps frepr (PDict
         [(''status'', PStr ''FAILED''),
          (''reason'', PStr (exn_str e)),
          (''logs'', PList [PStr (''Error processing task: '' @ exn_str e)])])],
       exit_status = 0\<rparr>"
proof -
  from assms have "main json_load frepr stdin = ([], Some e)"
  proof
    assume "json_load stdin = Inl e"
    then show ?thesis by (rule main_load_raises)
  next
    assume "\<exists>v. json_load stdin = Inr v \<and> type_name v \<noteq> ''dict'' \<and> e = no_attribute v ''get''"
    then obtain v where v: "json_load stdin = Inr v" "\<forall>d. v \<noteq> PDict d"
      "e = no_attribute v ''get''"
      by (auto simp: not_dict_iff)
    from main_not_object [of json_load stdin v frepr] v show ?thesis by simp
  qed
  with worker_failed [OF this] show ?thesis by simp
qed

theorem non_object_stdin_fails_witness:
  \<open>worker sample_load sample_frepr '''' =
     \<lparr>stdout = [''{"status": "FAILED", "reason": "Expecting value: line 1 column 1 (char 0)", "logs": ["Error processing task: Expecting value: line 1 column 1 (char 0)"]}''],
      exit_status = 0\<rparr>
   \<and> worker sample_load sample_frepr ''[1, 2]'' =
     \<lparr>stdout = [''{"status": "FAILED", "reason": "'list' object has no attribute 'get'", "logs": ["Error processing task: 'list' object has no attribute 'get'"]}''],
      exit_status = 0\<rparr>\<close>
  using non_object_stdin_fails [of sample_load "''''"
      "JSONDecodeError ''Expecting value: line 1 column 1 (char 0)''" sample_frepr]
    non_object_stdin_fails [of sample_load "''[1, 2]''"
      "no_attribute (PList [PInt 1, PInt 2]) ''get''" sample_frepr]
  by (simp add: sample_load_def no_attribute_def json_dumps.simps encode_str_def
        escape_char_def)

text \<open>
  C10. Whenever standard input parses to a JSON object whose \<^verbatim>\<open>inputData\<close> is absent or
  an object, \<^verbatim>\<open>main\<close> returns without raising and prints a Result with status
  \<^verbatim>\<open>COMPLETED\<close>, whatever the types of \<^verbatim>\<open>taskId\<close>, \<^verbatim>\<open>workflowInstanceId\<close>, \<^verbatim>\<open>taskType\<close>
  and \<^verbatim>\<open>name\<close>: the values go into the output as they are and into the message and the
  log strings as formatted by the f-strings.
\<close>

theorem field_types_not_validated:
  assumes "json_load stdin = Inr (PDict task)"
    and "map_of task ''inputData'' = None \<and> input_data = []
       \<or> map_of task ''inputData'' = Some (PDict input_data)"
  shows "main json_load frepr stdin =
    ([json_dumps frepr (PDict
        [(''status'', PStr ''COMPLETED''),
         (''output'', PDict
            [(''message'', PStr (''Hello, ''
                @ format frepr (field_or input_data ''name'' (PStr ''World'')) @ ''!'')),
             (''taskId'', field_or task ''taskId'' (PStr ''unknown'')),
             (''workflowId'', field_or task ''workflowInstanceId'' (PStr ''unknown''))]),
         (''logs'', PList
            [PStr (''Processing task ''
                @ format frepr (field_or task ''taskId'' (PStr ''unknown''))
                @ '' of type '' @ format frepr (field_or task ''taskType'' (PStr ''unknown''))),
             PStr (''Workflow: ''
                @ format frepr (field_or task ''workflowInstanceId'' (PStr ''unknown''))),
             PStr (''Generated greeting for ''
                @ format frepr (field_or input_data ''name'' (PStr ''World'')))])])],
     None)
    \<and> stdout (worker json_load frepr stdin) = fst (main json_load frepr stdin)"
proof -
  from assms(2) have "field_or task ''inputData'' (PDict []) = PDict input_data"
    by (auto simp: field_or_def)
  with assms(1) have m: "main json_load frepr stdin =
    ([json_dumps frepr (PDict
        [(''status'', PStr ''COMPLETED''),
         (''output'', PDict
            [(''message'', PStr (''Hello, ''
                @ format frepr (field_or input_data ''name'' (PStr ''World'')) @ ''!'')),
             (''taskId'', field_or task ''taskId'' (PStr ''unknown'')),
             (''workflowId'', field_or task ''workflowInstanceId'' (PStr ''unknown''))]),
         (''logs'', PList
            [PStr (''Processing task ''
                @ format frepr (field_or task ''taskId'' (PStr ''unknown''))
                @ '' of type '' @ format frepr (field_or task ''taskType'' (PStr ''unknown''))),
             PStr (''Workflow: ''
                @ format frepr (field_or task ''workflowInstanceId'' (PStr ''unknown''))),
             PStr (''Generated greeting for ''
                @ format frepr (field_or input_data ''name'' (PStr ''World'')))])])],
     None)"
    by (rule main_completed)
  from worker_returned [OF this] m show ?thesis by simp
qed

theorem field_types_not_validated_witness:
  \<open>worker sample_load sample_frepr
     ''{"taskId": 7, "workflowInstanceId": [true, null], "inputData": {"name": {"a": -3}}}'' =
     \<lparr>stdout = [''{"status": "COMPLETED", "output": {"message": "Hello, {'a': -3}!", "taskId": 7, "workflowId": [true, null]}, "logs": ["Processing task 7 of type unknown", "Workflow: [True, None]", "Generated greeting for {'a': -3}"]}''],
      exit_status = 0\<rparr>\<close>
  using field_types_not_validated [of sample_load
      \<open>''{"taskId": 7, "workflowInstanceId": [true, null], "inputData": {"name": {"a": -3}}}''\<close>
      "[(''taskId'', PInt 7), (''workflowInstanceId'', PList [PBool True, PNone]),
        (''inputData'', PDict [(''name'', PDict [(''a'', PInt (- 3))])])]"
      "[(''name'', PDict [(''a'', PInt (- 3))])]" sample_frepr]
  by (simp add: sample_load_def worker_def field_or_def json_dumps.simps encode_str_def
        escape_char_def repr.simps str_repr_def repr_char_def printable_def int_str_def
        nat_str.simps digit_char_def Let_def)

end
